theory Spec2Isabelle
  imports
    Complex_Main
    "HOL-Library.Char_ord"
    "HOL-Library.List_Lexorder"
    "HOL-Library.Product_Lexorder"
    "HOL-Library.Multiset"
begin

section \<open>Values shared by the repository and the service\<close>

text \<open>
  Python \<open>str\<close> and \<open>bytes\<close> values are both lists of 8-bit characters: a \<open>str\<close> is
  represented by its UTF-8 encoding, so that \<open>encode('utf-8')\<close> is the identity and
  \<open>decode('utf-8')\<close> is the identity on well-formed input and an error elsewhere.
  Comparison of two \<open>str\<close> values by code point coincides with the bytewise
  lexicographic order of their encodings, which is the order of \<open>HOL-Library.List_Lexorder\<close>
  over \<open>HOL-Library.Char_ord\<close>.  The \<open>lower\<close> of the retry decorator's test is modelled
  on the ASCII range, characters outside it being left alone; \<open>strip\<close> removes the
  whitespace of Unicode; in the service \<open>lower\<close> and \<open>isdigit\<close> are parameters, as the
  built-ins \<open>float\<close> and \<open>int\<close> are.

  Python \<open>float\<close> values are modelled as reals: rounding, infinities and NaN are outside
  the model.  Logging has no effect on any result and is left out.
\<close>

type_synonym bytes = string

text \<open>An exception: the name of its class and its message, \<open>str(e)\<close>.\<close>

datatype exn = Exn (exn_class: string) (exn_msg: string)

text \<open>A method of an object with state \<open>'s\<close>: it returns or raises, and leaves a new state.\<close>

type_synonym ('s, 'a) action = "'s \<Rightarrow> (exn + 'a) \<times> 's"

subsection \<open>String methods\<close>

text \<open>An upper-case ASCII letter becomes lower case by setting the bit of value 32.\<close>

definition lower_char :: "char \<Rightarrow> char" where
  "lower_char c =
     (if CHR ''A'' \<le> c \<and> c \<le> CHR ''Z''
      then (case c of Char b0 b1 b2 b3 b4 b5 b6 b7 \<Rightarrow> Char b0 b1 b2 b3 b4 True b6 b7)
      else c)"

definition lower :: "string \<Rightarrow> string" where
  "lower s = map lower_char s"

fun starts_with :: "string \<Rightarrow> string \<Rightarrow> bool" where
  "starts_with [] s = True"
| "starts_with (p # ps) [] = False"
| "starts_with (p # ps) (c # cs) = (p = c \<and> starts_with ps cs)"

text \<open>\<open>sub in s\<close> for two strings.\<close>

fun contains :: "string \<Rightarrow> string \<Rightarrow> bool" where
  "contains sub [] = (sub = [])"
| "contains sub (c # cs) = (starts_with sub (c # cs) \<or> contains sub cs)"

section \<open>The retry decorator (\<open>rating_repository.py\<close>, lines 10 to 34)\<close>

text \<open>Line 26: the test on the lower-cased message of the exception.\<close>

definition is_connection_error :: "exn \<Rightarrow> bool" where
  "is_connection_error e =
     (let error_msg = lower (exn_msg e)
      in contains ''connection'' error_msg \<or> contains ''broken pipe'' error_msg
         \<or> contains ''10053'' error_msg)"

text \<open>
  Lines 19 to 21, the body of the \<open>try\<close>: the table is refreshed when the object has the
  method \<open>_refresh_table\<close>, then the wrapped function is called.  An exception of the refresh
  is caught by the same handler as one of the function.
\<close>

definition try_body :: "('s, unit) action option \<Rightarrow> ('s, 'a) action \<Rightarrow> ('s, 'a) action" where
  "try_body refresh func self =
     (case refresh of
        None \<Rightarrow> func self
      | Some refresh_table \<Rightarrow>
          (case refresh_table self of
             (Inl e, self') \<Rightarrow> (Inl e, self')
           | (Inr _, self') \<Rightarrow> func self'))"

text \<open>
  Lines 16 to 32: the loop over \<open>range(max_retries)\<close>, given the attempts still to run.
  \<open>raise last_error\<close> after the loop raises \<open>TypeError\<close> when no attempt has run, since
  \<open>last_error\<close> is then \<open>None\<close>.
\<close>

fun retry_loop ::
  "int \<Rightarrow> ('s, unit) action option \<Rightarrow> ('s, 'a) action \<Rightarrow> nat list \<Rightarrow> exn option \<Rightarrow> ('s, 'a) action"
where
  "retry_loop max_retries refresh func [] last_error self =
     (case last_error of
        None \<Rightarrow> (Inl (Exn ''TypeError'' ''exceptions must derive from BaseException''), self)
      | Some e \<Rightarrow> (Inl e, self))"
| "retry_loop max_retries refresh func (attempt # rest) last_error self =
     (case try_body refresh func self of
        (Inr v, self') \<Rightarrow> (Inr v, self')
      | (Inl e, self') \<Rightarrow>
          if is_connection_error e \<and> int attempt < max_retries - 1
          then retry_loop max_retries refresh func rest (Some e) self'
          else (Inl e, self'))"

definition retry_on_connection_error ::
  "int \<Rightarrow> ('s, unit) action option \<Rightarrow> ('s, 'a) action \<Rightarrow> ('s, 'a) action"
where
  "retry_on_connection_error max_retries refresh func self =
     retry_loop max_retries refresh func [0 ..< nat max_retries] None self"

text \<open>
  Instrumentation for counting calls: an action lifted to a state that carries a log, to
  which every call of the action appends its tag.
\<close>

datatype event = Refreshed | Called

definition logged :: "event \<Rightarrow> ('s, 'a) action \<Rightarrow> ('s \<times> event list, 'a) action" where
  "logged ev act st = (case act (fst st) of (r, s') \<Rightarrow> (r, (s', snd st @ [ev])))"

definition attempts :: "event list \<Rightarrow> nat" where
  "attempts evs = length (filter (\<lambda>ev. ev = Called) evs)"

text \<open>Sample operations, on a state that counts the calls made so far.\<close>

definition broken_pipe :: exn where
  "broken_pipe = Exn ''OSError'' ''[Errno 32] Broken pipe''"

definition key_error :: exn where
  "key_error = Exn ''KeyError'' ''data:rating''"

definition refresh_ok :: "(nat, unit) action" where
  "refresh_ok n = (Inr (), n)"

definition always_broken :: "(nat, string) action" where
  "always_broken n = (Inl broken_pipe, Suc n)"

definition broken_once :: "(nat, string) action" where
  "broken_once n = (if n = 0 then (Inl broken_pipe, Suc n) else (Inr ''ok'', Suc n))"

definition always_key_error :: "(nat, string) action" where
  "always_key_error n = (Inl key_error, Suc n)"

section \<open>Built-in functions used by the repository\<close>

subsection \<open>\<open>bytes.decode('utf-8')\<close>\<close>

text \<open>
  The decoder follows CPython's: it inspects the character that starts at the head of the
  input and answers with the number of bytes of a well-formed character, or with the
  error: how many bytes the error covers (\<open>None\<close>: all that is left) and the reason.
\<close>

definition is_continuation :: "nat \<Rightarrow> bool" where
  "is_continuation b = (0x80 \<le> b \<and> b < 0xC0)"

definition utf8_first :: "nat list \<Rightarrow> nat + nat option \<times> string" where
  "utf8_first bs =
     (case bs of
        [] \<Rightarrow> Inl 0
      | ch # s \<Rightarrow>
          if ch < 0x80 then Inl 1
          else if ch < 0xE0 then
            (if ch < 0xC2 then Inr (Some 1, ''invalid start byte'')
             else case s of
                    [] \<Rightarrow> Inr (None, ''unexpected end of data'')
                  | ch2 # s2 \<Rightarrow>
                      if \<not> is_continuation ch2 then Inr (Some 1, ''invalid continuation byte'')
                      else Inl 2)
          else if ch < 0xF0 then
            (case s of
               [] \<Rightarrow> Inr (None, ''unexpected end of data'')
             | ch2 # s2 \<Rightarrow>
                 if \<not> is_continuation ch2 \<or> (if ch2 < 0xA0 then ch = 0xE0 else ch = 0xED)
                 then Inr (Some 1, ''invalid continuation byte'')
                 else case s2 of
                        [] \<Rightarrow> Inr (None, ''unexpected end of data'')
                      | ch3 # s3 \<Rightarrow>
                          if \<not> is_continuation ch3
                          then Inr (Some 2, ''invalid continuation byte'')
                          else Inl 3)
          else if ch < 0xF5 then
            (case s of
               [] \<Rightarrow> Inr (None, ''unexpected end of data'')
             | ch2 # s2 \<Rightarrow>
                 if \<not> is_continuation ch2 \<or> (if ch2 < 0x90 then ch = 0xF0 else ch = 0xF4)
                 then Inr (Some 1, ''invalid continuation byte'')
                 else case s2 of
                        [] \<Rightarrow> Inr (None, ''unexpected end of data'')
                      | ch3 # s3 \<Rightarrow>
                          if \<not> is_continuation ch3
                          then Inr (Some 2, ''invalid continuation byte'')
                          else case s3 of
                                 [] \<Rightarrow> Inr (None, ''unexpected end of data'')
                               | ch4 # s4 \<Rightarrow>
                                   if \<not> is_continuation ch4
                                   then Inr (Some 3, ''invalid continuation byte'')
                                   else Inl 4)
          else Inr (Some 1, ''invalid start byte''))"

text \<open>
  The first error of the input, if any: the offending byte, the positions where the error
  starts and ends, and the reason.  The fuel is the length of the input; every step
  consumes at least one byte, so the fuel never runs out before the input does.
\<close>

fun utf8_error :: "nat \<Rightarrow> nat \<Rightarrow> nat list \<Rightarrow> (nat \<times> nat \<times> nat \<times> string) option" where
  "utf8_error fuel pos [] = None"
| "utf8_error 0 pos (b # bs) = None"
| "utf8_error (Suc fuel) pos (b # bs) =
     (case utf8_first (b # bs) of
        Inl n \<Rightarrow> utf8_error fuel (pos + n) (drop n (b # bs))
      | Inr (None, reason) \<Rightarrow> Some (b, pos, pos + length (b # bs), reason)
      | Inr (Some k, reason) \<Rightarrow> Some (b, pos, pos + k, reason))"

subsection \<open>\<open>str(n)\<close> for an integer and the \<open>%02x\<close> format\<close>

definition digit_char :: "nat \<Rightarrow> char" where
  "digit_char d = ''0123456789abcdef'' ! d"

function str_nat :: "nat \<Rightarrow> string" where
  "str_nat n = (if n < 10 then [digit_char n] else str_nat (n div 10) @ [digit_char (n mod 10)])"
  by pat_completeness auto
termination
  by (relation "measure id") auto

declare str_nat.simps [simp del]

definition str_int :: "int \<Rightarrow> string" where
  "str_int i = (if i < 0 then CHR ''-'' # str_nat (nat (- i)) else str_nat (nat i))"

definition hex2 :: "nat \<Rightarrow> string" where
  "hex2 b = [digit_char (b div 16 mod 16), digit_char (b mod 16)]"

text \<open>The message of \<open>UnicodeDecodeError\<close>, as CPython formats it.\<close>

definition codec_name :: string where
  "codec_name = [CHR 0x27] @ ''utf-8'' @ [CHR 0x27] @ '' codec can'' @ [CHR 0x27] @ ''t decode ''"

definition decode_error :: "nat \<times> nat \<times> nat \<times> string \<Rightarrow> exn" where
  "decode_error err =
     (case err of (b, start, stop, reason) \<Rightarrow>
        Exn ''UnicodeDecodeError''
          (if stop = start + 1
           then codec_name @ ''byte 0x'' @ hex2 b @ '' in position ''
                @ str_nat start @ '': '' @ reason
           else codec_name @ ''bytes in position '' @ str_nat start @ ''-''
                @ str_nat (stop - 1) @ '': '' @ reason))"

definition decode :: "bytes \<Rightarrow> exn + string" where
  "decode b =
     (case utf8_error (length b) 0 (map of_char b) of
        None \<Rightarrow> Inr b
      | Some err \<Rightarrow> Inl (decode_error err))"

subsection \<open>\<open>str.split(sep)\<close> with a separator of one character\<close>

text \<open>The result is never empty; the last case of the inner \<open>case\<close> is unreachable.\<close>

fun split :: "char \<Rightarrow> string \<Rightarrow> string list" where
  "split sep [] = [[]]"
| "split sep (c # cs) =
     (if c = sep then [] # split sep cs
      else case split sep cs of
             p # ps \<Rightarrow> (c # p) # ps
           | [] \<Rightarrow> [[c]])"


subsection \<open>\<open>float(x)\<close> truncated by \<open>int(x)\<close>\<close>

text \<open>\<open>int\<close> of a float rounds towards zero.\<close>

definition int_of_float :: "real \<Rightarrow> int" where
  "int_of_float v = (if 0 \<le> v then \<lfloor>v\<rfloor> else \<lceil>v\<rceil>)"

section \<open>The store client\<close>

text \<open>
  A scan is a lazy sequence of rows, each a key and a dictionary from qualified column
  names to values; the sequence ends, or fails with an exception raised by the client
  (also before the first row, when the call of \<open>scan\<close> itself raises).
\<close>

datatype scanner = ScanEnd | ScanFail exn | ScanRow bytes "bytes \<rightharpoonup> bytes" scanner

text \<open>A table handle is its method \<open>scan(row_start, row_stop)\<close>.\<close>

type_synonym table = "bytes option \<Rightarrow> bytes option \<Rightarrow> scanner"

text \<open>The keys a scan yields before it ends or fails.\<close>

fun scanned_keys :: "scanner \<Rightarrow> bytes list" where
  "scanned_keys ScanEnd = []"
| "scanned_keys (ScanFail e) = []"
| "scanned_keys (ScanRow key data rest) = key # scanned_keys rest"

text \<open>
  Modelled from the spec: the client library of the store and the module
  \<open>backend.db.hbase\<close> are not among the sources.  Section 6 of the specification gives
  the contract of \<open>scan\<close>: the rows between an inclusive start and an exclusive stop, keys
  ordered as byte strings.  \<open>store_table\<close> is the handle of a table that holds the given
  rows and never fails.
\<close>

fun scanner_of :: "(bytes \<times> (bytes \<rightharpoonup> bytes)) list \<Rightarrow> scanner" where
  "scanner_of [] = ScanEnd"
| "scanner_of ((key, data) # rows) = ScanRow key data (scanner_of rows)"

definition in_range :: "bytes option \<Rightarrow> bytes option \<Rightarrow> bytes \<Rightarrow> bool" where
  "in_range row_start row_stop key =
     ((case row_start of None \<Rightarrow> True | Some a \<Rightarrow> a \<le> key)
      \<and> (case row_stop of None \<Rightarrow> True | Some b \<Rightarrow> key < b))"

definition store_table :: "(bytes \<times> (bytes \<rightharpoonup> bytes)) list \<Rightarrow> table" where
  "store_table rows row_start row_stop =
     scanner_of (filter (\<lambda>row. in_range row_start row_stop (fst row)) rows)"

text \<open>The part of the contract that the repository relies on: a scan stays in its bounds.\<close>

definition respects_bounds :: "table \<Rightarrow> bool" where
  "respects_bounds t =
     (\<forall>a b. \<forall>key \<in> set (scanned_keys (t (Some a) (Some b))). a \<le> key \<and> key < b)"

section \<open>The rating repository (\<open>rating_repository.py\<close>, lines 37 to 160)\<close>

text \<open>
  A rating as the repository returns it (a dictionary with these four keys, the rating a
  string) and as the service holds it (the class \<open>Rating\<close>, the rating a float).
\<close>

record 'r rating =
  user_id :: string
  movie_id :: string
  rating :: 'r
  timestamp :: string

text \<open>
  The state of a repository: its attribute \<open>table\<close> and the module-level object
  \<open>hbase_connection\<close>, whose method \<open>get_ratings_table\<close> is a parameter of the model.
\<close>

record 'c rating_repository =
  table :: table
  hbase_connection :: 'c

text \<open>Lines 44 to 46, \<open>_refresh_table\<close>.\<close>

definition refresh_table ::
  "('c, table) action \<Rightarrow> ('c rating_repository, unit) action"
where
  "refresh_table get_ratings_table self =
     (case get_ratings_table (hbase_connection self) of
        (Inl e, c) \<Rightarrow> (Inl e, self\<lparr>hbase_connection := c\<rparr>)
      | (Inr t, c) \<Rightarrow> (Inr (), self\<lparr>table := t, hbase_connection := c\<rparr>))"

text \<open>\<open>data.get(column, default).decode('utf-8')\<close>.\<close>

definition get_decoded :: "(bytes \<rightharpoonup> bytes) \<Rightarrow> bytes \<Rightarrow> bytes \<Rightarrow> exn + string" where
  "get_decoded data column default_value =
     decode (case data column of None \<Rightarrow> default_value | Some v \<Rightarrow> v)"

text \<open>Lines 68 to 73 and 147 to 152: the dictionary built for a kept row.\<close>

definition make_rating ::
  "string \<Rightarrow> string \<Rightarrow> (bytes \<rightharpoonup> bytes) \<Rightarrow> exn + string rating"
where
  "make_rating uid mid data =
     (case get_decoded data ''data:rating'' ''0'' of
        Inl e \<Rightarrow> Inl e
      | Inr r \<Rightarrow>
          (case get_decoded data ''data:timestamp'' [] of
             Inl e \<Rightarrow> Inl e
           | Inr ts \<Rightarrow> Inr \<lparr>user_id = uid, movie_id = mid, rating = r, timestamp = ts\<rparr>))"

text \<open>
  Lines 61 to 78: the loop of \<open>find_by_movie_id\<close> over the rows of a scan, with the
  ratings collected so far.  \<open>limit\<close> is \<open>None\<close> or an integer; \<open>if limit and ...\<close> holds
  for an integer other than zero.
\<close>

fun scan_by_movie_id ::
  "string \<Rightarrow> int option \<Rightarrow> scanner \<Rightarrow> string rating list \<Rightarrow> exn + string rating list"
where
  "scan_by_movie_id movie_id' limit ScanEnd ratings = Inr ratings"
| "scan_by_movie_id movie_id' limit (ScanFail e) ratings = Inl e"
| "scan_by_movie_id movie_id' limit (ScanRow key data rest) ratings =
     (case decode key of
        Inl e \<Rightarrow> Inl e
      | Inr key_str \<Rightarrow>
          (case split CHR ''_'' key_str of
             [uid, mid] \<Rightarrow>
               if mid = movie_id' then
                 (case make_rating uid mid data of
                    Inl e \<Rightarrow> Inl e
                  | Inr r \<Rightarrow>
                      if (case limit of None \<Rightarrow> False
                          | Some n \<Rightarrow> n \<noteq> 0 \<and> int (length (ratings @ [r])) \<ge> n)
                      then Inr (ratings @ [r])
                      else scan_by_movie_id movie_id' limit rest (ratings @ [r]))
               else scan_by_movie_id movie_id' limit rest ratings
           | _ \<Rightarrow> scan_by_movie_id movie_id' limit rest ratings))"

text \<open>Lines 59 to 81: the body of \<open>find_by_movie_id\<close>, on the table of the repository.\<close>

definition find_by_movie_id_body :: "string \<Rightarrow> int option \<Rightarrow> table \<Rightarrow> exn + string rating list" where
  "find_by_movie_id_body movie_id' limit t = scan_by_movie_id movie_id' limit (t None None) []"

text \<open>Line 48: the method as decorated.\<close>

definition find_by_movie_id ::
  "('c, table) action \<Rightarrow> string \<Rightarrow> int option
     \<Rightarrow> ('c rating_repository, string rating list) action"
where
  "find_by_movie_id get_ratings_table movie_id' limit =
     retry_on_connection_error 2 (Some (refresh_table get_ratings_table))
       (\<lambda>self. (find_by_movie_id_body movie_id' limit (table self), self))"

text \<open>Lines 141 to 157: the loop of \<open>find_by_user_id\<close>.\<close>

fun scan_by_user_id :: "int \<Rightarrow> scanner \<Rightarrow> string rating list \<Rightarrow> exn + string rating list" where
  "scan_by_user_id limit ScanEnd ratings = Inr ratings"
| "scan_by_user_id limit (ScanFail e) ratings = Inl e"
| "scan_by_user_id limit (ScanRow key data rest) ratings =
     (case decode key of
        Inl e \<Rightarrow> Inl e
      | Inr key_str \<Rightarrow>
          (case split CHR ''_'' key_str of
             [uid, mid] \<Rightarrow>
               (case make_rating uid mid data of
                  Inl e \<Rightarrow> Inl e
                | Inr r \<Rightarrow>
                    if int (length (ratings @ [r])) \<ge> limit
                    then Inr (ratings @ [r])
                    else scan_by_user_id limit rest (ratings @ [r]))
           | _ \<Rightarrow> scan_by_user_id limit rest ratings))"

text \<open>Lines 135 to 160: the body of \<open>find_by_user_id\<close>, with the bounds of its scan.\<close>

definition find_by_user_id_body :: "string \<Rightarrow> int \<Rightarrow> table \<Rightarrow> exn + string rating list" where
  "find_by_user_id_body user_id' limit t =
     (let start_row = user_id' @ ''_'';
          stop_row = user_id' @ ''_~''
      in scan_by_user_id limit (t (Some start_row) (Some stop_row)) [])"

definition find_by_user_id ::
  "('c, table) action \<Rightarrow> string \<Rightarrow> int
     \<Rightarrow> ('c rating_repository, string rating list) action"
where
  "find_by_user_id get_ratings_table user_id' limit =
     retry_on_connection_error 2 (Some (refresh_table get_ratings_table))
       (\<lambda>self. (find_by_user_id_body user_id' limit (table self), self))"

subsection \<open>\<open>get_rating_stats\<close>, lines 83 to 122\<close>

record rating_stats =
  avg_rating :: real
  total_count :: int
  rating_distribution :: "(string \<times> int) list"

text \<open>
  \<open>distribution[rating_key] += 1\<close> on a \<open>defaultdict(int)\<close>: the dictionary is the list of
  its items in the order of insertion.
\<close>

fun increment :: "string \<Rightarrow> (string \<times> int) list \<Rightarrow> (string \<times> int) list" where
  "increment k [] = [(k, 1)]"
| "increment k ((k', n) # items) =
     (if k' = k then (k', n + 1) # items else (k', n) # increment k items)"

text \<open>Line 112.\<close>

definition rating_key :: "real \<Rightarrow> string" where
  "rating_key rating_value =
     (if rating_value \<ge> 1 then str_int (int_of_float rating_value) else ''0.5'')"

text \<open>
  Lines 108 to 113, the loop over the ratings; the built-in \<open>float\<close> applied to a string
  is a parameter, and raises or returns a value.
\<close>

fun stats_loop ::
  "(string \<Rightarrow> exn + real) \<Rightarrow> string rating list \<Rightarrow> real \<Rightarrow> (string \<times> int) list
     \<Rightarrow> exn + real \<times> (string \<times> int) list"
where
  "stats_loop to_float [] total' distribution = Inr (total', distribution)"
| "stats_loop to_float (r # rs) total' distribution =
     (case to_float (rating r) of
        Inl e \<Rightarrow> Inl e
      | Inr rating_value \<Rightarrow>
          stats_loop to_float rs (total' + rating_value)
            (increment (rating_key rating_value) distribution))"

text \<open>Lines 97 to 119: the statistics of the ratings found.\<close>

definition compute_stats :: "(string \<Rightarrow> exn + real) \<Rightarrow> string rating list \<Rightarrow> exn + rating_stats" where
  "compute_stats to_float all_ratings =
     (if all_ratings = []
      then Inr \<lparr>avg_rating = 0, total_count = 0, rating_distribution = []\<rparr>
      else case stats_loop to_float all_ratings 0 [] of
             Inl e \<Rightarrow> Inl e
           | Inr (total', distribution) \<Rightarrow>
               Inr \<lparr>avg_rating = total' / real (length all_ratings),
                    total_count = int (length all_ratings),
                    rating_distribution = distribution\<rparr>)"

text \<open>Lines 93 to 122: the body, which calls the decorated \<open>find_by_movie_id\<close>.\<close>

definition get_rating_stats_body ::
  "('c, table) action \<Rightarrow> (string \<Rightarrow> exn + real) \<Rightarrow> string
     \<Rightarrow> ('c rating_repository, rating_stats) action"
where
  "get_rating_stats_body get_ratings_table to_float movie_id' self =
     (case find_by_movie_id get_ratings_table movie_id' None self of
        (Inl e, self') \<Rightarrow> (Inl e, self')
      | (Inr all_ratings, self') \<Rightarrow> (compute_stats to_float all_ratings, self'))"

definition get_rating_stats ::
  "('c, table) action \<Rightarrow> (string \<Rightarrow> exn + real) \<Rightarrow> string
     \<Rightarrow> ('c rating_repository, rating_stats) action"
where
  "get_rating_stats get_ratings_table to_float movie_id' =
     retry_on_connection_error 2 (Some (refresh_table get_ratings_table))
       (get_rating_stats_body get_ratings_table to_float movie_id')"

section \<open>Sample data\<close>

text \<open>
  A connection that hands out the same table at every call, a repository before its first
  refresh, and the rows of some tables.
\<close>

definition serve :: "table \<Rightarrow> (unit, table) action" where
  "serve t c = (Inr t, c)"

definition no_columns :: "bytes \<rightharpoonup> bytes" where
  "no_columns = Map.empty"

definition sample_rows :: "(bytes \<times> (bytes \<rightharpoonup> bytes)) list" where
  "sample_rows =
     [(''u1_m1'', [''data:rating'' \<mapsto> ''4.5'', ''data:timestamp'' \<mapsto> ''2024-01-02'']),
      (''u1_m2'', [''data:rating'' \<mapsto> ''3'']),
      (''u1_m2_x'', no_columns),
      (''u2_m1'', no_columns)]"

definition new_repository :: "unit rating_repository" where
  "new_repository = \<lparr>table = store_table [], hbase_connection = ()\<rparr>"

definition empty_part_rows :: "(bytes \<times> (bytes \<rightharpoonup> bytes)) list" where
  "empty_part_rows = [(''_m1'', no_columns), (''u1_'', no_columns)]"

definition undecodable_rows :: "(bytes \<times> (bytes \<rightharpoonup> bytes)) list" where
  "undecodable_rows = [([CHR 0xFF], no_columns), (''u1_m1'', no_columns)]"

text \<open>
  A sample of the built-in \<open>float\<close> applied to a string, used on sample data only.  It is
  the built-in on the unsigned plain decimal numerals of ASCII digits, such as \<open>5\<close>, \<open>4.5\<close>,
  \<open>5.\<close> and \<open>.5\<close>, and raises the exception of the built-in on everything else.  The
  built-in accepts more: a sign, an exponent, whitespace around the numeral, underscores
  between digits, digits of other scripts, \<open>inf\<close> and \<open>nan\<close>; on these strings the sample
  is not the built-in, and nothing below applies it to one.
\<close>

definition is_digit :: "char \<Rightarrow> bool" where
  "is_digit c = (CHR ''0'' \<le> c \<and> c \<le> CHR ''9'')"

definition nat_of_digits :: "string \<Rightarrow> nat" where
  "nat_of_digits s = foldl (\<lambda>n c. 10 * n + (of_char c - 48)) 0 s"

definition float_of_decimal :: "string \<Rightarrow> exn + real" where
  "float_of_decimal s =
     (let ip = takeWhile (\<lambda>c. c \<noteq> CHR ''.'') s;
          fp = drop 1 (dropWhile (\<lambda>c. c \<noteq> CHR ''.'') s)
      in if list_all is_digit ip \<and> list_all is_digit fp \<and> (ip \<noteq> [] \<or> fp \<noteq> [])
         then Inr (real (nat_of_digits ip) + real (nat_of_digits fp) / 10 ^ length fp)
         else Inl (Exn ''ValueError''
                (''could not convert string to float: '' @ [CHR 0x27] @ s @ [CHR 0x27])))"

text \<open>The rows of the scenario of the specification.\<close>

definition scenario_rows :: "(bytes \<times> (bytes \<rightharpoonup> bytes)) list" where
  "scenario_rows =
     [(''u1_m1'', [''data:rating'' \<mapsto> ''5'']), (''u2_m1'', [''data:rating'' \<mapsto> ''3''])]"

text \<open>Rows whose ratings fall under two labels, and a row of another movie.\<close>

definition bucket_rows :: "(bytes \<times> (bytes \<rightharpoonup> bytes)) list" where
  "bucket_rows =
     [(''u1_m1'', [''data:rating'' \<mapsto> ''3.5'']), (''u2_m1'', [''data:rating'' \<mapsto> ''3'']),
      (''u3_m1'', [''data:rating'' \<mapsto> ''0.5'']), (''u4_m2'', [''data:rating'' \<mapsto> ''5''])]"

text \<open>The count of a label in a distribution, 0 when the label is absent.\<close>

definition count_of :: "(string \<times> int) list \<Rightarrow> string \<Rightarrow> int" where
  "count_of d k = (case map_of d k of None \<Rightarrow> 0 | Some n \<Rightarrow> n)"

section \<open>Built-in functions used by the service\<close>

text \<open>
  \<open>list.sort(key=..., reverse=...)\<close> returns the one stable rearrangement of the list that
  is ordered by the keys, ascending or, with \<open>reverse=True\<close>, descending; elements with
  equal keys keep their order in both cases.  The model is the insertion sort that
  computes this list.
\<close>

fun insort_by :: "('a \<Rightarrow> 'a \<Rightarrow> bool) \<Rightarrow> 'a \<Rightarrow> 'a list \<Rightarrow> 'a list" where
  "insort_by le x [] = [x]"
| "insort_by le x (y # ys) = (if le x y then x # y # ys else y # insort_by le x ys)"

definition sort_by :: "('a \<Rightarrow> 'a \<Rightarrow> bool) \<Rightarrow> 'a list \<Rightarrow> 'a list" where
  "sort_by le xs = foldr (insort_by le) xs []"

definition list_sort :: "('a \<Rightarrow> 'k::linorder) \<Rightarrow> bool \<Rightarrow> 'a list \<Rightarrow> 'a list" where
  "list_sort key reverse xs =
     sort_by (\<lambda>a b. if reverse then key b \<le> key a else key a \<le> key b) xs"

text \<open>\<open>xs[start:stop]\<close>; a negative index counts from the end.\<close>

definition py_slice :: "'a list \<Rightarrow> int \<Rightarrow> int \<Rightarrow> 'a list" where
  "py_slice xs start stop =
     (let n = int (length xs);
          lo = (if start < 0 then max 0 (n + start) else min start n);
          hi = (if stop < 0 then max 0 (n + stop) else min stop n)
      in take (nat (hi - lo)) (drop (nat lo) xs))"

text \<open>\<open>a // b\<close> on integers.\<close>

definition floordiv :: "int \<Rightarrow> int \<Rightarrow> exn + int" where
  "floordiv a b =
     (if b = 0 then Inl (Exn ''ZeroDivisionError'' ''integer division or modulo by zero'')
      else Inr (a div b))"

text \<open>
  \<open>str.strip()\<close> removes from both ends the characters for which \<open>str.isspace\<close> holds:
  U+0009 to U+000D, U+001C to U+0020, U+0085, U+00A0, U+1680, U+2000 to U+200A, U+2028,
  U+2029, U+202F, U+205F and U+3000, listed here by their UTF-8 encodings.  No encoding
  is the beginning or the end of another, so that a string begins, or ends, with at most
  one of them.
\<close>

definition whitespace :: "string list" where
  "whitespace =
     [[CHR 0x09], [CHR 0x0A], [CHR 0x0B], [CHR 0x0C], [CHR 0x0D],
      [CHR 0x1C], [CHR 0x1D], [CHR 0x1E], [CHR 0x1F], [CHR 0x20],
      [CHR 0xC2, CHR 0x85], [CHR 0xC2, CHR 0xA0],
      [CHR 0xE1, CHR 0x9A, CHR 0x80],
      [CHR 0xE2, CHR 0x80, CHR 0x80], [CHR 0xE2, CHR 0x80, CHR 0x81],
      [CHR 0xE2, CHR 0x80, CHR 0x82], [CHR 0xE2, CHR 0x80, CHR 0x83],
      [CHR 0xE2, CHR 0x80, CHR 0x84], [CHR 0xE2, CHR 0x80, CHR 0x85],
      [CHR 0xE2, CHR 0x80, CHR 0x86], [CHR 0xE2, CHR 0x80, CHR 0x87],
      [CHR 0xE2, CHR 0x80, CHR 0x88], [CHR 0xE2, CHR 0x80, CHR 0x89],
      [CHR 0xE2, CHR 0x80, CHR 0x8A],
      [CHR 0xE2, CHR 0x80, CHR 0xA8], [CHR 0xE2, CHR 0x80, CHR 0xA9],
      [CHR 0xE2, CHR 0x80, CHR 0xAF], [CHR 0xE2, CHR 0x81, CHR 0x9F],
      [CHR 0xE3, CHR 0x80, CHR 0x80]]"

text \<open>The string without the members of \<open>chars\<close> it begins with.\<close>

function lstrip_of :: "string list \<Rightarrow> string \<Rightarrow> string" where
  "lstrip_of chars s =
     (case find (\<lambda>w. w \<noteq> [] \<and> starts_with w s) chars of
        None \<Rightarrow> s
      | Some w \<Rightarrow> lstrip_of chars (drop (length w) s))"
  by pat_completeness auto
termination
proof (relation "measure (\<lambda>(chars, s). length s)")
  show "wf (measure (\<lambda>(chars, s). length s))" by simp
next
  fix chars :: "string list" and s w :: string
  assume "find (\<lambda>w. w \<noteq> [] \<and> starts_with w s) chars = Some w"
  then have "w \<noteq> []" and "starts_with w s" by (auto simp: find_Some_iff)
  then have "s \<noteq> []" by (cases w; cases s) simp_all
  with \<open>w \<noteq> []\<close> show "((chars, drop (length w) s), (chars, s)) \<in> measure (\<lambda>(chars, s). length s)"
    by simp
qed

declare lstrip_of.simps [simp del]

definition strip :: "string \<Rightarrow> string" where
  "strip s = rev (lstrip_of (map rev whitespace) (rev (lstrip_of whitespace s)))"

text \<open>A list comprehension whose expression may raise: the first exception ends it.\<close>

fun convert_all :: "('a \<Rightarrow> exn + 'b) \<Rightarrow> 'a list \<Rightarrow> exn + 'b list" where
  "convert_all f [] = Inr []"
| "convert_all f (x # xs) =
     (case f x of
        Inl e \<Rightarrow> Inl e
      | Inr y \<Rightarrow> (case convert_all f xs of Inl e \<Rightarrow> Inl e | Inr ys \<Rightarrow> Inr (y # ys)))"

section \<open>The movie service (\<open>movie_service.py\<close>)\<close>

text \<open>
  A movie, as the movie repository returns it (a dictionary with these five keys, the
  average rating and the rating count of a type \<open>'v\<close> that the built-in \<open>float\<close> and \<open>int\<close>
  convert) and as the service holds it (the class \<open>Movie\<close>).  The fields \<open>id\<close> and
  \<open>avg_rating\<close> carry a prime, their names being taken.

  Modelled from the spec: the movie repository is not among the sources; section 6 of
  the specification gives its methods \<open>find_all\<close>, \<open>find_by_id\<close> and \<open>search_by_text\<close>.
  The outcome of a call of \<open>find_all\<close> and the functions \<open>find_by_id\<close> and
  \<open>search_by_text\<close> are parameters of the model, as are \<open>float\<close> and \<open>int\<close>.
\<close>

record ('f, 'i) movie =
  id' :: string
  title :: string
  genres :: "string list"
  avg_rating' :: 'f
  rating_count :: 'i

text \<open>Lines 34 to 40, 175 to 181 and 188 to 194: the construction of a \<open>Movie\<close>.\<close>

definition to_movie ::
  "('v \<Rightarrow> exn + real) \<Rightarrow> ('v \<Rightarrow> exn + int) \<Rightarrow> ('v, 'v) movie \<Rightarrow> exn + (real, int) movie"
where
  "to_movie to_float to_int m =
     (case to_float (avg_rating' m) of
        Inl e \<Rightarrow> Inl e
      | Inr a \<Rightarrow>
          (case to_int (rating_count m) of
             Inl e \<Rightarrow> Inl e
           | Inr n \<Rightarrow>
               Inr \<lparr>id' = id' m, title = title m, genres = genres m,
                    avg_rating' = a, rating_count = n\<rparr>))"

text \<open>Lines 116 to 121: the construction of a \<open>Rating\<close>.\<close>

definition to_rating :: "(string \<Rightarrow> exn + real) \<Rightarrow> string rating \<Rightarrow> exn + real rating" where
  "to_rating to_float r =
     (case to_float (rating r) of
        Inl e \<Rightarrow> Inl e
      | Inr v \<Rightarrow>
          Inr \<lparr>user_id = user_id r, movie_id = movie_id r, rating = v,
               timestamp = timestamp r\<rparr>)"

text \<open>Lines 28 to 57, \<open>get_movies_list\<close>.\<close>

definition get_movies_list ::
  "('v \<Rightarrow> exn + real) \<Rightarrow> ('v \<Rightarrow> exn + int) \<Rightarrow> exn + ('v, 'v) movie list \<Rightarrow> int \<Rightarrow> int
     \<Rightarrow> exn + (real, int) movie list \<times> int \<times> int"
where
  "get_movies_list to_float to_int find_all page page_size =
     (case find_all of
        Inl e \<Rightarrow> Inl e
      | Inr all_movies_data \<Rightarrow>
          (case convert_all (to_movie to_float to_int) all_movies_data of
             Inl e \<Rightarrow> Inl e
           | Inr converted \<Rightarrow>
               let all_movies = list_sort (\<lambda>x. (avg_rating' x, rating_count x)) True converted;
                   total' = int (length all_movies)
               in case floordiv (total' + page_size - 1) page_size of
                    Inl e \<Rightarrow> Inl e
                  | Inr total_pages \<Rightarrow>
                      let start_idx = (page - 1) * page_size;
                          end_idx = start_idx + page_size
                      in Inr (py_slice all_movies start_idx end_idx, total', total_pages)))"

text \<open>Lines 110 to 138, \<open>get_movie_ratings\<close>, on the rating repository of the service.\<close>

definition get_movie_ratings ::
  "('c, table) action \<Rightarrow> (string \<Rightarrow> exn + real) \<Rightarrow> string \<Rightarrow> int \<Rightarrow> int
     \<Rightarrow> ('c rating_repository, real rating list \<times> int \<times> int) action"
where
  "get_movie_ratings get_ratings_table to_float movie_id' page page_size self =
     (case find_by_movie_id get_ratings_table movie_id' None self of
        (Inl e, self') \<Rightarrow> (Inl e, self')
      | (Inr all_ratings_data, self') \<Rightarrow>
          (case convert_all (to_rating to_float) all_ratings_data of
             Inl e \<Rightarrow> (Inl e, self')
           | Inr converted \<Rightarrow>
               let all_ratings = list_sort timestamp True converted;
                   total' = int (length all_ratings)
               in case (if total' > 0 then floordiv (total' + page_size - 1) page_size
                        else Inr 0) of
                    Inl e \<Rightarrow> (Inl e, self')
                  | Inr total_pages \<Rightarrow>
                      let start_idx = (page - 1) * page_size;
                          end_idx = start_idx + page_size
                      in (Inr (py_slice all_ratings start_idx end_idx, total', total_pages),
                          self')))"

text \<open>Lines 199 to 201, the key of the ranking.\<close>

definition title_match :: "(string \<Rightarrow> string) \<Rightarrow> string \<Rightarrow> ('f, 'i) movie \<Rightarrow> bool" where
  "title_match to_lower query m = contains (to_lower query) (to_lower (title m))"

definition sort_key ::
  "(string \<Rightarrow> string) \<Rightarrow> string \<Rightarrow> (real, int) movie \<Rightarrow> bool \<times> real \<times> int"
where
  "sort_key to_lower query m =
     (\<not> title_match to_lower query m, - avg_rating' m, - rating_count m)"

text \<open>
  Lines 165 to 208, \<open>search_movies\<close>.  \<open>find_by_id\<close> answers \<open>None\<close> for a movie it does
  not have.  The methods \<open>str.isdigit\<close> and \<open>str.lower\<close>, whose tables are those of the
  Unicode version of the interpreter, are the parameters \<open>isdigit\<close> and \<open>to_lower\<close>.
\<close>

definition search_movies ::
  "('v \<Rightarrow> exn + real) \<Rightarrow> ('v \<Rightarrow> exn + int) \<Rightarrow> (string \<Rightarrow> bool) \<Rightarrow> (string \<Rightarrow> string)
     \<Rightarrow> (string \<Rightarrow> exn + ('v, 'v) movie option)
     \<Rightarrow> (string \<Rightarrow> int \<Rightarrow> exn + ('v, 'v) movie list) \<Rightarrow> string \<Rightarrow> int
     \<Rightarrow> exn + (real, int) movie list"
where
  "search_movies to_float to_int isdigit to_lower find_by_id search_by_text query limit =
     (let query = strip query
      in if query = [] then Inr []
         else if isdigit query then
           (case find_by_id query of
              Inl e \<Rightarrow> Inl e
            | Inr None \<Rightarrow> Inr []
            | Inr (Some movie_data) \<Rightarrow>
                (case to_movie to_float to_int movie_data of
                   Inl e \<Rightarrow> Inl e
                 | Inr m \<Rightarrow> Inr [m]))
         else
           (case search_by_text query limit of
              Inl e \<Rightarrow> Inl e
            | Inr matched_data \<Rightarrow>
                (case convert_all (to_movie to_float to_int) matched_data of
                   Inl e \<Rightarrow> Inl e
                 | Inr matched_movies \<Rightarrow>
                     Inr (list_sort (sort_key to_lower query) False matched_movies))))"

text \<open>The items of a page, none when the call raised.\<close>

definition page_items :: "exn + 'a list \<times> int \<times> int \<Rightarrow> 'a list" where
  "page_items res = (case res of Inl e \<Rightarrow> [] | Inr (items, total', total_pages) \<Rightarrow> items)"

text \<open>
  Samples of \<open>str.isdigit\<close> and of the built-in \<open>int\<close> applied to a string, used on sample
  data only.  They are the built-ins on the strings of ASCII characters without sign,
  whitespace or underscore: \<open>isdigit\<close> holds of the non-empty strings of ASCII digits, and
  \<open>int\<close> converts these and raises its exception on the others.  The built-in \<open>isdigit\<close>
  also holds of strings with digits of other scripts, and the built-in \<open>int\<close> also accepts
  such digits, a sign, whitespace around the numeral and underscores between digits; on
  these strings the samples are not the built-ins, and nothing below applies them to one.
  The sample of \<open>str.lower\<close> is the \<open>lower\<close> of the ASCII range above.
\<close>

definition ascii_isdigit :: "string \<Rightarrow> bool" where
  "ascii_isdigit s = (s \<noteq> [] \<and> list_all is_digit s)"

definition int_of_decimal :: "string \<Rightarrow> exn + int" where
  "int_of_decimal s =
     (if ascii_isdigit s then Inr (int (nat_of_digits s))
      else Inl (Exn ''ValueError''
             (''invalid literal for int() with base 10: '' @ [CHR 0x27] @ s @ [CHR 0x27])))"

definition sample_movies :: "(string, string) movie list" where
  "sample_movies =
     [\<lparr>id' = ''1'', title = ''Heat'', genres = [''Matrix-like''],
        avg_rating' = ''4.8'', rating_count = ''5''\<rparr>,
      \<lparr>id' = ''2'', title = ''The Matrix'', genres = [''Sci-Fi''],
        avg_rating' = ''4.5'', rating_count = ''10''\<rparr>,
      \<lparr>id' = ''3'', title = ''Alien'', genres = [],
        avg_rating' = ''4.5'', rating_count = ''20''\<rparr>]"

definition the_matrix :: "(real, int) movie" where
  "the_matrix = \<lparr>id' = ''2'', title = ''The Matrix'', genres = [''Sci-Fi''],
        avg_rating' = 4.5, rating_count = 10\<rparr>"

definition heat :: "(real, int) movie" where
  "heat = \<lparr>id' = ''1'', title = ''Heat'', genres = [''Matrix-like''],
        avg_rating' = 4.8, rating_count = 5\<rparr>"

definition alien :: "(real, int) movie" where
  "alien = \<lparr>id' = ''3'', title = ''Alien'', genres = [],
        avg_rating' = 4.5, rating_count = 20\<rparr>"

text \<open>Rows whose timestamps are not of one width.\<close>

definition timestamp_rows :: "(bytes \<times> (bytes \<rightharpoonup> bytes)) list" where
  "timestamp_rows =
     [(''u1_m1'', [''data:rating'' \<mapsto> ''4'', ''data:timestamp'' \<mapsto> ''9'']),
      (''u2_m1'', [''data:rating'' \<mapsto> ''5'', ''data:timestamp'' \<mapsto> ''10'']),
      (''u3_m1'', [''data:rating'' \<mapsto> ''3'', ''data:timestamp'' \<mapsto> ''10''])]"

text \<open>
  Modelled from the spec: a sample of the movie repository over the sample records.
  \<open>find_by_id\<close> answers the record with the identifier, \<open>search_by_text\<close> the first
  \<open>limit\<close> records whose title or one of whose genres contains the query, case ignored.
\<close>

definition sample_find_by_id :: "string \<Rightarrow> exn + (string, string) movie option" where
  "sample_find_by_id i = Inr (find (\<lambda>m. id' m = i) sample_movies)"

definition sample_search_by_text :: "string \<Rightarrow> int \<Rightarrow> exn + (string, string) movie list" where
  "sample_search_by_text q limit =
     Inr (take (nat limit)
       (filter (\<lambda>m. contains (lower q) (lower (title m))
                    \<or> list_ex (\<lambda>g. contains (lower q) (lower g)) (genres m))
          sample_movies))"

section \<open>Properties of the retry decorator\<close>

lemma starts_with_iff: "starts_with p s \<longleftrightarrow> (\<exists>b. s = p @ b)"
  by (induction p s rule: starts_with.induct) auto

lemma contains_iff: "contains sub s \<longleftrightarrow> (\<exists>a b. s = a @ sub @ b)"
proof (induction s)
  case Nil
  then show ?case by auto
next
  case (Cons c cs)
  show ?case
  proof
    assume "contains sub (c # cs)"
    then consider "starts_with sub (c # cs)" | "contains sub cs" by auto
    then show "\<exists>a b. c # cs = a @ sub @ b"
    proof cases
      case 1
      then obtain b where "c # cs = sub @ b" by (auto simp: starts_with_iff)
      then have "c # cs = [] @ sub @ b" by simp
      then show ?thesis by blast
    next
      case 2
      then obtain a b where "cs = a @ sub @ b" using Cons.IH by auto
      then have "c # cs = (c # a) @ sub @ b" by simp
      then show ?thesis by blast
    qed
  next
    assume "\<exists>a b. c # cs = a @ sub @ b"
    then obtain a b where ab: "c # cs = a @ sub @ b" by blast
    show "contains sub (c # cs)"
    proof (cases a)
      case Nil
      then have "starts_with sub (c # cs)" using ab by (auto simp: starts_with_iff)
      then show ?thesis by simp
    next
      case (Cons x a')
      then have "cs = a' @ sub @ b" using ab by simp
      then have "contains sub cs" using Cons.IH by blast
      then show ?thesis by simp
    qed
  qed
qed

lemma is_connection_error_iff:
  "is_connection_error e \<longleftrightarrow>
     (\<exists>a b. lower (exn_msg e) = a @ ''connection'' @ b)
     \<or> (\<exists>a b. lower (exn_msg e) = a @ ''broken pipe'' @ b)
     \<or> (\<exists>a b. lower (exn_msg e) = a @ ''10053'' @ b)"
  unfolding is_connection_error_def Let_def contains_iff ..

lemma range_2: "[0 ..< nat 2] = [0, 1]"
  by (simp add: upt_rec)

text \<open>With \<open>max_retries = 2\<close> the loop is two runs of the \<open>try\<close> body at most.\<close>

lemma retry_2:
  "retry_on_connection_error 2 refresh func self =
     (case try_body refresh func self of
        (Inr v, s1) \<Rightarrow> (Inr v, s1)
      | (Inl e, s1) \<Rightarrow> if is_connection_error e then try_body refresh func s1 else (Inl e, s1))"
  unfolding retry_on_connection_error_def range_2
  by (auto split: prod.splits sum.splits)

lemma try_body_logged:
  "try_body (Some (logged Refreshed r)) (logged Called f) (s, evs) =
     (case r s of
        (Inl e, s1) \<Rightarrow> (Inl e, s1, evs @ [Refreshed])
      | (Inr u, s1) \<Rightarrow> (case f s1 of (res, s2) \<Rightarrow> (res, s2, evs @ [Refreshed, Called])))"
  by (simp add: try_body_def logged_def split: prod.splits sum.splits)

lemma attempts_try_body:
  "attempts (snd (snd (try_body (Some (logged Refreshed r)) (logged Called f) (s, evs))))
     \<le> Suc (attempts evs)"
  by (simp add: try_body_logged attempts_def split: prod.splits sum.splits)

lemma attempts_retry_2:
  "attempts (snd (snd (retry_on_connection_error 2 (Some (logged Refreshed r))
      (logged Called f) (s, [])))) \<le> 2"
proof -
  let ?T = "try_body (Some (logged Refreshed r)) (logged Called f)"
  obtain res1 s1 evs1 where t1: "?T (s, []) = (res1, s1, evs1)"
    by (metis prod_cases3)
  have a1: "attempts evs1 \<le> 1"
    using attempts_try_body [of r f s "[]"] by (simp add: t1 attempts_def)
  have a2: "attempts (snd (snd (?T (s1, evs1)))) \<le> 2"
    using attempts_try_body [of r f s1 evs1] a1 by simp
  show ?thesis
    using a1 a2 by (cases res1) (simp_all add: retry_2 t1)
qed

text \<open>
  C1.  A method decorated with \<open>max_retries = 2\<close>, run from an empty log: the wrapped
  function is called at most twice; an exception is a connection error exactly when its
  lower-cased message contains \<open>connection\<close>, \<open>broken pipe\<close> or \<open>10053\<close>; when the first
  call raises any other exception, that exception is raised unchanged after this one call;
  when the first call raises a connection error, the \<open>try\<close> body runs a second time and its
  outcome is the outcome of the method; and when that second call returns, its value is
  returned and the table has been refreshed exactly once between the two calls.
\<close>

theorem retry_twice_on_connection_error:
  "attempts (snd (snd (retry_on_connection_error 2 (Some (logged Refreshed r))
      (logged Called f) (s, [])))) \<le> 2
   \<and> (is_connection_error e \<longleftrightarrow>
        (\<exists>a b. lower (exn_msg e) = a @ ''connection'' @ b)
        \<or> (\<exists>a b. lower (exn_msg e) = a @ ''broken pipe'' @ b)
        \<or> (\<exists>a b. lower (exn_msg e) = a @ ''10053'' @ b))
   \<and> (r s = (Inr (), s1) \<and> f s1 = (Inl e, s2) \<and> \<not> is_connection_error e \<longrightarrow>
        retry_on_connection_error 2 (Some (logged Refreshed r)) (logged Called f) (s, [])
          = (Inl e, s2, [Refreshed, Called]))
   \<and> (r s = (Inr (), s1) \<and> f s1 = (Inl e, s2) \<and> is_connection_error e \<longrightarrow>
        retry_on_connection_error 2 (Some (logged Refreshed r)) (logged Called f) (s, [])
          = try_body (Some (logged Refreshed r)) (logged Called f) (s2, [Refreshed, Called]))
   \<and> (r s = (Inr (), s1) \<and> f s1 = (Inl e, s2) \<and> is_connection_error e
        \<and> r s2 = (Inr (), s3) \<and> f s3 = (Inr v, s4) \<longrightarrow>
        retry_on_connection_error 2 (Some (logged Refreshed r)) (logged Called f) (s, [])
          = (Inr v, s4, [Refreshed, Called, Refreshed, Called]))"
proof (intro conjI impI)
  show "attempts (snd (snd (retry_on_connection_error 2 (Some (logged Refreshed r))
      (logged Called f) (s, [])))) \<le> 2"
    by (rule attempts_retry_2)
next
  show "is_connection_error e \<longleftrightarrow>
        (\<exists>a b. lower (exn_msg e) = a @ ''connection'' @ b)
        \<or> (\<exists>a b. lower (exn_msg e) = a @ ''broken pipe'' @ b)
        \<or> (\<exists>a b. lower (exn_msg e) = a @ ''10053'' @ b)"
    by (rule is_connection_error_iff)
next
  assume "r s = (Inr (), s1) \<and> f s1 = (Inl e, s2) \<and> \<not> is_connection_error e"
  then show "retry_on_connection_error 2 (Some (logged Refreshed r)) (logged Called f) (s, [])
          = (Inl e, s2, [Refreshed, Called])"
    by (simp add: retry_2 try_body_logged)
next
  assume "r s = (Inr (), s1) \<and> f s1 = (Inl e, s2) \<and> is_connection_error e"
  then show "retry_on_connection_error 2 (Some (logged Refreshed r)) (logged Called f) (s, [])
          = try_body (Some (logged Refreshed r)) (logged Called f) (s2, [Refreshed, Called])"
    by (simp add: retry_2 try_body_logged [of r f s])
next
  assume "r s = (Inr (), s1) \<and> f s1 = (Inl e, s2) \<and> is_connection_error e
        \<and> r s2 = (Inr (), s3) \<and> f s3 = (Inr v, s4)"
  then show "retry_on_connection_error 2 (Some (logged Refreshed r)) (logged Called f) (s, [])
          = (Inr v, s4, [Refreshed, Called, Refreshed, Called])"
    by (simp add: retry_2 try_body_logged)
qed

lemma broken_pipe_is_connection_error: "is_connection_error broken_pipe"
  by (simp add: is_connection_error_def broken_pipe_def lower_def lower_char_def)

lemma key_error_is_fatal: "\<not> is_connection_error key_error"
  by (simp add: is_connection_error_def key_error_def lower_def lower_char_def)

theorem retry_twice_on_connection_error_witness:
  "retry_on_connection_error 2 (Some (logged Refreshed refresh_ok)) (logged Called broken_once)
      (0, []) = (Inr ''ok'', 2, [Refreshed, Called, Refreshed, Called])
   \<and> retry_on_connection_error 2 (Some (logged Refreshed refresh_ok))
      (logged Called always_key_error) (0, []) = (Inl key_error, 1, [Refreshed, Called])
   \<and> retry_on_connection_error 2 (Some (logged Refreshed refresh_ok))
      (logged Called always_broken) (0, []) = (Inl broken_pipe, 2, [Refreshed, Called, Refreshed, Called])"
proof -
  have r0: "refresh_ok 0 = (Inr (), 0)" and r1: "refresh_ok 1 = (Inr (), 1)"
    by (simp_all add: refresh_ok_def)
  have b0: "broken_once 0 = (Inl broken_pipe, 1)" and b1: "broken_once 1 = (Inr ''ok'', 2)"
    by (simp_all add: broken_once_def)
  have k0: "always_key_error 0 = (Inl key_error, 1)"
    by (simp add: always_key_error_def)
  have a0: "always_broken 0 = (Inl broken_pipe, 1)"
    by (simp add: always_broken_def)
  have one: "retry_on_connection_error 2 (Some (logged Refreshed refresh_ok))
      (logged Called broken_once) (0, []) = (Inr ''ok'', 2, [Refreshed, Called, Refreshed, Called])"
    using retry_twice_on_connection_error [of refresh_ok broken_once 0 broken_pipe 0 1 1 "''ok''" 2]
      r0 r1 b0 b1 broken_pipe_is_connection_error by blast
  have two: "retry_on_connection_error 2 (Some (logged Refreshed refresh_ok))
      (logged Called always_key_error) (0, []) = (Inl key_error, 1, [Refreshed, Called])"
    using retry_twice_on_connection_error [of refresh_ok always_key_error 0 key_error 0 1]
      r0 k0 key_error_is_fatal by blast
  have "retry_on_connection_error 2 (Some (logged Refreshed refresh_ok))
      (logged Called always_broken) (0, [])
      = try_body (Some (logged Refreshed refresh_ok)) (logged Called always_broken)
          (1, [Refreshed, Called])"
    using retry_twice_on_connection_error [of refresh_ok always_broken 0 broken_pipe 0 1]
      r0 a0 broken_pipe_is_connection_error by blast
  then have three: "retry_on_connection_error 2 (Some (logged Refreshed refresh_ok))
      (logged Called always_broken) (0, [])
      = (Inl broken_pipe, 2, [Refreshed, Called, Refreshed, Called])"
    by (simp add: try_body_logged refresh_ok_def always_broken_def)
  show ?thesis using one two three by blast
qed

text \<open>
  C3, as the claim states it, fails: when both attempts raise a connection error, the
  exception that leaves the method is the one the second attempt raised, of the class it
  was raised with; no class \<open>ConnectionExhausted\<close> is involved.
\<close>

theorem connection_exhausted_counterexample:
  "is_connection_error broken_pipe
   \<and> try_body (Some refresh_ok) always_broken 0 = (Inl broken_pipe, 1)
   \<and> try_body (Some refresh_ok) always_broken 1 = (Inl broken_pipe, 2)
   \<and> retry_on_connection_error 2 (Some refresh_ok) always_broken 0 = (Inl broken_pipe, 2)
   \<and> exn_class broken_pipe \<noteq> ''ConnectionExhausted''"
  by (simp add: retry_2 try_body_def refresh_ok_def always_broken_def
      broken_pipe_is_connection_error)
    (simp add: broken_pipe_def)

text \<open>
  C3, amended.  When each of the two attempts raises a connection error, the method raises
  the exception of the second attempt, unchanged, and leaves the state that attempt left.
\<close>

theorem retry_exhausted_raises_last_error:
  "try_body refresh func self = (Inl e1, s1) \<Longrightarrow> is_connection_error e1 \<Longrightarrow>
   try_body refresh func s1 = (Inl e2, s2) \<Longrightarrow> is_connection_error e2 \<Longrightarrow>
   retry_on_connection_error 2 refresh func self = (Inl e2, s2)"
  by (simp add: retry_2)

theorem retry_exhausted_raises_last_error_witness:
  "retry_on_connection_error 2 (Some refresh_ok) always_broken 0 = (Inl broken_pipe, 2)"
proof -
  have t0: "try_body (Some refresh_ok) always_broken 0 = (Inl broken_pipe, 1)"
    by (simp add: try_body_def refresh_ok_def always_broken_def)
  have t1: "try_body (Some refresh_ok) always_broken 1 = (Inl broken_pipe, 2)"
    by (simp add: try_body_def refresh_ok_def always_broken_def)
  show ?thesis
    using retry_exhausted_raises_last_error [OF t0 broken_pipe_is_connection_error t1
        broken_pipe_is_connection_error] .
qed

section \<open>Properties of the scans of the repository\<close>

lemma utf8_first_consumes:
  "utf8_first (b # bs) = Inl n \<Longrightarrow> 1 \<le> n \<and> n \<le> length (b # bs)"
  by (auto simp: utf8_first_def split: if_splits list.splits)

text \<open>The length of the input is fuel enough: more fuel does not change the answer.\<close>

lemma utf8_error_fuel:
  "length bs \<le> fuel \<Longrightarrow> utf8_error (fuel + k) pos bs = utf8_error fuel pos bs"
proof (induction fuel pos bs rule: utf8_error.induct)
  case (1 fuel pos)
  then show ?case by simp
next
  case (2 pos b bs)
  then show ?case by simp
next
  case (3 fuel pos b bs)
  show ?case
  proof (cases "utf8_first (b # bs)")
    case (Inl n)
    from utf8_first_consumes [OF Inl] "3.prems"
    have "length (drop n (b # bs)) \<le> fuel" by auto
    from "3.IH" [OF Inl this] Inl show ?thesis by simp
  next
    case (Inr err)
    then show ?thesis by (cases err) (auto split: option.splits)
  qed
qed

lemma decode_Inr: "decode b = Inr s \<Longrightarrow> s = b"
  by (auto simp: decode_def split: option.splits)

lemma try_body_Inr:
  "try_body (Some r) f s = (Inr v, s') \<Longrightarrow> \<exists>s1. r s = (Inr (), s1) \<and> f s1 = (Inr v, s')"
  by (auto simp: try_body_def split: prod.splits sum.splits)

lemma retry_2_Inr:
  "retry_on_connection_error 2 (Some r) f s = (Inr v, s') \<Longrightarrow>
     \<exists>s0 s1. r s0 = (Inr (), s1) \<and> f s1 = (Inr v, s')"
  unfolding retry_2
  by (auto split: prod.splits sum.splits if_splits) (meson try_body_Inr)+

lemma refresh_table_Inr:
  "refresh_table get self = (Inr (), self1) \<Longrightarrow>
     \<exists>c. get (hbase_connection self) = (Inr (table self1), c)"
  by (auto simp: refresh_table_def split: prod.splits sum.splits)

lemma find_by_movie_id_Inr:
  assumes "find_by_movie_id get mid limit self = (Inr rs, self')"
  shows "\<exists>c c'. get c = (Inr (table self'), c') \<and> find_by_movie_id_body mid limit (table self') = Inr rs"
proof -
  from retry_2_Inr [OF assms [unfolded find_by_movie_id_def]]
  obtain s0 s1 where r: "refresh_table get s0 = (Inr (), s1)"
    and f: "(find_by_movie_id_body mid limit (table s1), s1) = (Inr rs, self')"
    by blast
  from f have "s1 = self'" "find_by_movie_id_body mid limit (table self') = Inr rs" by auto
  with refresh_table_Inr [OF r] show ?thesis by blast
qed

lemma find_by_user_id_Inr:
  assumes "find_by_user_id get uid limit self = (Inr rs, self')"
  shows "\<exists>c c'. get c = (Inr (table self'), c') \<and> find_by_user_id_body uid limit (table self') = Inr rs"
proof -
  from retry_2_Inr [OF assms [unfolded find_by_user_id_def]]
  obtain s0 s1 where r: "refresh_table get s0 = (Inr (), s1)"
    and f: "(find_by_user_id_body uid limit (table s1), s1) = (Inr rs, self')"
    by blast
  from f have "s1 = self'" "find_by_user_id_body uid limit (table self') = Inr rs" by auto
  with refresh_table_Inr [OF r] show ?thesis by blast
qed

lemma split_nonempty: "split sep s \<noteq> []"
  by (induction s) (auto split: list.splits)

lemma split_single: "split sep s = [a] \<Longrightarrow> s = a \<and> sep \<notin> set a"
proof (induction s arbitrary: a)
  case Nil then show ?case by simp
next
  case (Cons c cs)
  then show ?case
    by (auto split: if_splits list.splits simp: split_nonempty)
qed

lemma split_pair: "split sep s = [a, b] \<Longrightarrow> s = a @ sep # b \<and> sep \<notin> set a \<and> sep \<notin> set b"
proof (induction s arbitrary: a)
  case Nil then show ?case by simp
next
  case (Cons c cs)
  show ?case
  proof (cases "c = sep")
    case True
    with Cons.prems have "a = []" "split sep cs = [b]" by auto
    then show ?thesis using True split_single [of sep cs b] by auto
  next
    case False
    with Cons.prems obtain p where "a = c # p" "split sep cs = [p, b]"
      by (auto split: list.splits)
    then show ?thesis using Cons.IH [of p] False by auto
  qed
qed





lemma scan_movie_keys:
  "scan_by_movie_id mid None sc acc = Inr all \<Longrightarrow>
     map (\<lambda>r. user_id r @ ''_'' @ movie_id r) all =
       map (\<lambda>r. user_id r @ ''_'' @ movie_id r) acc @
       filter (\<lambda>key. case split CHR ''_'' key of [u, m] \<Rightarrow> m = mid | _ \<Rightarrow> False) (scanned_keys sc)"
proof (induction sc arbitrary: acc)
  case (ScanRow key data rest)
  from ScanRow.prems obtain key_str where d: "decode key = Inr key_str"
    by (auto split: sum.splits)
  then have [simp]: "key_str = key" by (simp add: decode_Inr)
  show ?case
  proof (cases "\<exists>uid. split CHR ''_'' key = [uid, mid]")
    case False
    then have "scan_by_movie_id mid None rest acc = Inr all"
      using ScanRow.prems d by (simp split: list.splits if_splits)
    moreover have "\<not> (case split CHR ''_'' key of [u, m] \<Rightarrow> m = mid | _ \<Rightarrow> False)"
      using False by (auto split: list.splits)
    ultimately show ?thesis using ScanRow.IH [of acc] by simp
  next
    case True
    then obtain uid where sp: "split CHR ''_'' key = [uid, mid]" by blast
    from ScanRow.prems d sp obtain r where r: "make_rating uid mid data = Inr r"
      and rec: "scan_by_movie_id mid None rest (acc @ [r]) = Inr all"
      by (auto split: sum.splits)
    from r have "user_id r = uid" "movie_id r = mid"
      by (auto simp: make_rating_def split: sum.splits)
    moreover from split_pair [OF sp] have "key = uid @ ''_'' @ mid" by simp
    ultimately show ?thesis using ScanRow.IH [OF rec] sp by simp
  qed
qed auto

lemma scan_movie_movie_id:
  "scan_by_movie_id mid limit sc acc = Inr rs \<Longrightarrow> \<forall>r \<in> set acc. movie_id r = mid \<Longrightarrow>
     \<forall>r \<in> set rs. movie_id r = mid"
proof (induction sc arbitrary: acc)
  case (ScanRow key data rest)
  from ScanRow.prems(1) obtain key_str where d: "decode key = Inr key_str"
    by (auto split: sum.splits)
  show ?case
  proof (cases "\<exists>uid. split CHR ''_'' key_str = [uid, mid]")
    case False
    then have "scan_by_movie_id mid limit rest acc = Inr rs"
      using ScanRow.prems(1) d by (simp split: list.splits if_splits)
    then show ?thesis using ScanRow.IH ScanRow.prems(2) by blast
  next
    case True
    then obtain uid where sp: "split CHR ''_'' key_str = [uid, mid]" by blast
    from ScanRow.prems(1) d sp obtain r where r: "make_rating uid mid data = Inr r"
      and rec: "rs = acc @ [r] \<or> scan_by_movie_id mid limit rest (acc @ [r]) = Inr rs"
      by (auto split: sum.splits if_splits)
    from r have m: "movie_id r = mid"
      by (auto simp: make_rating_def split: sum.splits)
    then have "\<forall>x \<in> set (acc @ [r]). movie_id x = mid" using ScanRow.prems(2) by simp
    then show ?thesis using rec ScanRow.IH [of "acc @ [r]"] by blast
  qed
qed auto

lemma between_prefix:
  fixes p k :: string
  shows "p \<le> k \<Longrightarrow> k < p @ s \<Longrightarrow> \<exists>rest. k = p @ rest"
proof (induction p arbitrary: k)
  case Nil
  then show ?case by simp
next
  case (Cons x xs)
  then show ?case by (cases k) (auto split: if_splits)
qed

lemma first_part_unique:
  assumes eq: "u @ sep # m = p @ sep # rest" and u: "sep \<notin> set u" and m: "sep \<notin> set m"
  shows "u = p"
proof -
  have "filter (\<lambda>c. c = sep) u = []" "filter (\<lambda>c. c = sep) m = []"
    using u m by (auto simp: filter_empty_conv)
  then have "filter (\<lambda>c. c = sep) (u @ sep # m) = [sep]"
    by simp
  then have "filter (\<lambda>c. c = sep) p @ sep # filter (\<lambda>c. c = sep) rest = [sep]"
    using eq by simp
  then have "filter (\<lambda>c. c = sep) p = []"
    by (cases "filter (\<lambda>c. c = sep) p") auto
  then have p: "sep \<notin> set p" by (auto simp: filter_empty_conv)
  have "takeWhile (\<lambda>c. c \<noteq> sep) (u @ sep # m) = u" using u by (auto simp: takeWhile_tail)
  moreover have "takeWhile (\<lambda>c. c \<noteq> sep) (p @ sep # rest) = p" using p by (auto simp: takeWhile_tail)
  ultimately show ?thesis using eq by simp
qed

lemma scan_user_uid:
  "scan_by_user_id limit sc acc = Inr rs \<Longrightarrow>
   \<forall>key \<in> set (scanned_keys sc). \<exists>rest. key = uid @ ''_'' @ rest \<Longrightarrow>
   \<forall>r \<in> set acc. user_id r = uid \<Longrightarrow> \<forall>r \<in> set rs. user_id r = uid"
proof (induction sc arbitrary: acc)
  case (ScanRow key data rest)
  from ScanRow.prems(1) obtain key_str where d: "decode key = Inr key_str"
    by (auto split: sum.splits)
  then have ks: "key_str = key" by (simp add: decode_Inr)
  have keys: "\<forall>key \<in> set (scanned_keys rest). \<exists>rest. key = uid @ ''_'' @ rest"
    using ScanRow.prems(2) by simp
  show ?case
  proof (cases "\<exists>u m. split CHR ''_'' key_str = [u, m]")
    case False
    then have "scan_by_user_id limit rest acc = Inr rs"
      using ScanRow.prems(1) d by (simp split: list.splits)
    then show ?thesis using ScanRow.IH keys ScanRow.prems(3) by blast
  next
    case True
    then obtain u m where sp: "split CHR ''_'' key_str = [u, m]" by blast
    from ScanRow.prems(1) d sp obtain r where r: "make_rating u m data = Inr r"
      and rec: "rs = acc @ [r] \<or> scan_by_user_id limit rest (acc @ [r]) = Inr rs"
      by (auto split: sum.splits if_splits)
    from ScanRow.prems(2) obtain tl where "key = uid @ ''_'' @ tl" by auto
    with split_pair [OF sp] ks have "u @ CHR ''_'' # m = uid @ CHR ''_'' # tl"
      and "CHR ''_'' \<notin> set u" and "CHR ''_'' \<notin> set m" by auto
    then have "u = uid" by (rule first_part_unique)
    with r have "user_id r = uid"
      by (auto simp: make_rating_def split: sum.splits)
    then have "\<forall>x \<in> set (acc @ [r]). user_id x = uid" using ScanRow.prems(3) by simp
    then show ?thesis using rec ScanRow.IH [of "acc @ [r]"] keys by blast
  qed
qed auto

lemma scan_user_length:
  "scan_by_user_id limit sc acc = Inr rs \<Longrightarrow> 0 < limit \<Longrightarrow> int (length acc) < limit \<Longrightarrow>
     int (length rs) \<le> limit"
proof (induction sc arbitrary: acc)
  case (ScanRow key data rest)
  from ScanRow.prems(1) obtain key_str where d: "decode key = Inr key_str"
    by (auto split: sum.splits)
  show ?case
  proof (cases "\<exists>u m. split CHR ''_'' key_str = [u, m]")
    case False
    then have "scan_by_user_id limit rest acc = Inr rs"
      using ScanRow.prems(1) d by (simp split: list.splits)
    then show ?thesis using ScanRow.IH ScanRow.prems by blast
  next
    case True
    then obtain u m where sp: "split CHR ''_'' key_str = [u, m]" by blast
    from ScanRow.prems(1) d sp obtain r where r: "make_rating u m data = Inr r"
      and rec: "(int (length (acc @ [r])) \<ge> limit \<and> rs = acc @ [r])
          \<or> (int (length (acc @ [r])) < limit \<and> scan_by_user_id limit rest (acc @ [r]) = Inr rs)"
      by (auto split: sum.splits if_splits)
    then show ?thesis using ScanRow.IH [of "acc @ [r]"] ScanRow.prems(2,3) by auto
  qed
qed auto

lemma respects_boundsD:
  "respects_bounds t \<Longrightarrow> key \<in> set (scanned_keys (t (Some a) (Some b))) \<Longrightarrow> a \<le> key \<and> key < b"
  by (auto simp: respects_bounds_def)

lemma find_by_user_id_body_uid:
  assumes "respects_bounds t" and "find_by_user_id_body uid limit t = Inr rs"
  shows "\<forall>r \<in> set rs. user_id r = uid"
proof -
  let ?sc = "t (Some (uid @ ''_'')) (Some (uid @ ''_~''))"
  have "\<forall>key \<in> set (scanned_keys ?sc). \<exists>rest. key = uid @ ''_'' @ rest"
  proof
    fix key assume "key \<in> set (scanned_keys ?sc)"
    from respects_boundsD [OF assms(1) this]
    have "uid @ ''_'' \<le> key" "key < (uid @ ''_'') @ ''~''" by simp_all
    from between_prefix [OF this] show "\<exists>rest. key = uid @ ''_'' @ rest" by simp
  qed
  moreover have "scan_by_user_id limit ?sc [] = Inr rs"
    using assms(2) by (simp add: find_by_user_id_body_def)
  ultimately show ?thesis using scan_user_uid [of limit ?sc "[]" rs uid] by simp
qed

lemma scanned_keys_scanner_of: "scanned_keys (scanner_of rows) = map fst rows"
  by (induction rows) auto

lemma store_table_respects_bounds: "respects_bounds (store_table rows)"
  by (auto simp: respects_bounds_def store_table_def scanned_keys_scanner_of in_range_def)

lemma utf8_error_ascii:
  "\<forall>b \<in> set bs. b < 128 \<Longrightarrow> utf8_error fuel pos bs = None"
proof (induction fuel pos bs rule: utf8_error.induct)
  case (3 fuel pos b bs)
  then show ?case by (simp add: utf8_first_def)
qed simp_all

lemma decode_ascii: "list_all (\<lambda>c. of_char c < (128::nat)) b \<Longrightarrow> decode b = Inr b"
  by (simp add: decode_def utf8_error_ascii list_all_iff)

lemma find_by_user_id_serve:
  "find_by_user_id_body uid limit t = Inr rs \<Longrightarrow>
     find_by_user_id (serve t) uid limit self = (Inr rs, self\<lparr>table := t\<rparr>)"
  by (simp add: find_by_user_id_def retry_2 try_body_def refresh_table_def serve_def)

lemma find_by_movie_id_serve:
  "find_by_movie_id_body mid limit t = Inr rs \<Longrightarrow>
     find_by_movie_id (serve t) mid limit self = (Inr rs, self\<lparr>table := t\<rparr>)"
  by (simp add: find_by_movie_id_def retry_2 try_body_def refresh_table_def serve_def)

lemma sample_user_u1:
  "find_by_user_id_body ''u1'' 10 (store_table sample_rows) =
     Inr [\<lparr>user_id = ''u1'', movie_id = ''m1'', rating = ''4.5'', timestamp = ''2024-01-02''\<rparr>,
          \<lparr>user_id = ''u1'', movie_id = ''m2'', rating = ''3'', timestamp = ''''\<rparr>]"
  by (simp add: find_by_user_id_body_def store_table_def sample_rows_def in_range_def
      decode_ascii make_rating_def get_decoded_def no_columns_def)

lemma sample_user_u1_limit_1:
  "find_by_user_id_body ''u1'' 1 (store_table sample_rows) =
     Inr [\<lparr>user_id = ''u1'', movie_id = ''m1'', rating = ''4.5'', timestamp = ''2024-01-02''\<rparr>]"
  by (simp add: find_by_user_id_body_def store_table_def sample_rows_def in_range_def
      decode_ascii make_rating_def get_decoded_def no_columns_def)


lemma sample_movie_m1_limit_1:
  "find_by_movie_id_body ''m1'' (Some 1) (store_table sample_rows) =
     Inr [\<lparr>user_id = ''u1'', movie_id = ''m1'', rating = ''4.5'', timestamp = ''2024-01-02''\<rparr>]"
  by (simp add: find_by_movie_id_body_def store_table_def sample_rows_def in_range_def
      decode_ascii make_rating_def get_decoded_def no_columns_def)

lemma empty_part_movie:
  "find_by_movie_id_body ''m1'' None (store_table empty_part_rows) =
     Inr [\<lparr>user_id = '''', movie_id = ''m1'', rating = ''0'', timestamp = ''''\<rparr>]"
  by (simp add: find_by_movie_id_body_def store_table_def empty_part_rows_def in_range_def
      decode_ascii make_rating_def get_decoded_def no_columns_def)

lemma empty_part_user:
  "find_by_user_id_body ''u1'' 10 (store_table empty_part_rows) =
     Inr [\<lparr>user_id = ''u1'', movie_id = '''', rating = ''0'', timestamp = ''''\<rparr>]"
  by (simp add: find_by_user_id_body_def store_table_def empty_part_rows_def in_range_def
      decode_ascii make_rating_def get_decoded_def no_columns_def)

lemma undecodable_movie:
  "find_by_movie_id_body ''m1'' None (store_table undecodable_rows) =
     Inl (decode_error (255, 0, 1, ''invalid start byte''))"
  by (simp add: find_by_movie_id_body_def store_table_def undecodable_rows_def in_range_def
      decode_def utf8_first_def)

lemma length_two_iff: "length xs = 2 \<longleftrightarrow> (\<exists>a b. xs = [a, b])"
proof
  assume l: "length xs = 2"
  then obtain a ys where xs: "xs = a # ys" by (cases xs) auto
  with l have "length ys = 1" by simp
  then obtain b zs where ys: "ys = b # zs" by (cases ys) auto
  with \<open>length ys = 1\<close> have "zs = []" by simp
  with xs ys show "\<exists>a b. xs = [a, b]" by blast
next
  assume "\<exists>a b. xs = [a, b]"
  then show "length xs = 2" by auto
qed

lemma two_parts_split: "length (split CHR ''_'' key) = 2 \<Longrightarrow> \<exists>u m. split CHR ''_'' key = [u, m]"
  using length_two_iff by blast

lemma filter_two_parts_row: "length (split CHR ''_'' key) = 2 \<Longrightarrow>
   filter (\<lambda>key. length (split CHR ''_'' key) = 2) (scanned_keys (ScanRow key data rest))
        = key # filter (\<lambda>key. length (split CHR ''_'' key) = 2) (scanned_keys rest)"
  by simp

lemma scan_user_row_rating: "scan_by_user_id limit (ScanRow key data rest) acc = Inr rs \<Longrightarrow>
  decode key = Inr key \<Longrightarrow> split CHR ''_'' key = [u, m] \<Longrightarrow> \<exists>r. make_rating u m data = Inr r"
  by (cases "make_rating u m data") simp_all

lemma make_rating_ids: "make_rating u m data = Inr r \<Longrightarrow> user_id r = u \<and> movie_id r = m"
  by (auto simp: make_rating_def split: sum.splits)

lemma rating_key_string: "user_id r = u \<Longrightarrow> movie_id r = m \<Longrightarrow>
   key = u @ CHR ''_'' # m \<and> CHR ''_'' \<notin> set u \<and> CHR ''_'' \<notin> set m \<Longrightarrow>
   user_id r @ ''_'' @ movie_id r = key"
  by simp

lemma map_key_snoc: "user_id r @ ''_'' @ movie_id r = key \<Longrightarrow>
   map (\<lambda>r. user_id r @ ''_'' @ movie_id r) acc @ key # keys
     = map (\<lambda>r. user_id r @ ''_'' @ movie_id r) (acc @ [r]) @ keys"
  by simp

lemma scan_user_keys:
  "scan_by_user_id limit sc acc = Inr rs \<Longrightarrow> 0 < limit \<Longrightarrow> int (length acc) < limit \<Longrightarrow>
     map (\<lambda>r. user_id r @ ''_'' @ movie_id r) rs =
       take (nat limit)
         (map (\<lambda>r. user_id r @ ''_'' @ movie_id r) acc @
          filter (\<lambda>key. length (split CHR ''_'' key) = 2) (scanned_keys sc))"
proof (induction sc arbitrary: acc)
  case ScanEnd
  then have "rs = acc" by simp
  moreover have "length acc \<le> nat limit" using ScanEnd.prems(3) by linarith
  ultimately show ?case by simp
next
  case (ScanFail e)
  then show ?case by simp
next
  case (ScanRow key data rest)
  let ?k = "\<lambda>r :: string rating. user_id r @ ''_'' @ movie_id r"
  let ?two = "\<lambda>key. length (split CHR ''_'' key) = 2"
  from ScanRow.prems(1) obtain key_str where "decode key = Inr key_str"
    by (cases "decode key") simp_all
  then have d: "decode key = Inr key" using decode_Inr by blast
  show ?case
  proof (cases "?two key")
    case False
    then have no: "\<And>u m. split CHR ''_'' key \<noteq> [u, m]" by auto
    have skip: "scan_by_user_id limit (ScanRow key data rest) acc
        = scan_by_user_id limit rest acc"
      using d no by (simp split: list.splits)
    with ScanRow.prems(1) have "scan_by_user_id limit rest acc = Inr rs" by simp
    from ScanRow.IH [OF this ScanRow.prems(2,3)]
    have "map ?k rs = take (nat limit) (map ?k acc @ filter ?two (scanned_keys rest))" .
    moreover have "filter ?two (scanned_keys (ScanRow key data rest))
        = filter ?two (scanned_keys rest)"
      using False by simp
    ultimately show ?thesis by (simp only:)
  next
    case True
    from two_parts_split [OF True] obtain u m where sp: "split CHR ''_'' key = [u, m]" by blast
    have flt: "filter ?two (scanned_keys (ScanRow key data rest))
        = key # filter ?two (scanned_keys rest)"
      by (rule filter_two_parts_row [OF True])
    from scan_user_row_rating [OF ScanRow.prems(1) d sp] obtain r where r: "make_rating u m data = Inr r"
      by blast
    from make_rating_ids [OF r] have ur: "user_id r = u" and mr: "movie_id r = m" by blast+
    have key: "?k r = key" by (rule rating_key_string [OF ur mr split_pair [OF sp]])
    show ?thesis
    proof (cases "int (length (acc @ [r])) \<ge> limit")
      case stop: True
      then have "scan_by_user_id limit (ScanRow key data rest) acc = Inr (acc @ [r])"
        using d sp r by simp
      with ScanRow.prems(1) have rs: "rs = acc @ [r]" by simp
      have "int (length acc) + 1 \<ge> limit" using stop by simp
      then have "Suc (length acc) = nat limit" using ScanRow.prems(3) by linarith
      then have len: "length (map ?k (acc @ [r])) = nat limit" by simp
      have "take (length (map ?k (acc @ [r])))
              (map ?k (acc @ [r]) @ filter ?two (scanned_keys rest))
          = map ?k (acc @ [r])"
        by simp
      then have "take (nat limit) (map ?k (acc @ [r]) @ filter ?two (scanned_keys rest))
          = map ?k (acc @ [r])"
        by (simp only: len)
      then show ?thesis
        unfolding rs flt map_key_snoc [OF key] by (rule sym)
    next
      case go: False
      then have "scan_by_user_id limit (ScanRow key data rest) acc
          = scan_by_user_id limit rest (acc @ [r])"
        using d sp r by simp
      with ScanRow.prems(1) have rec: "scan_by_user_id limit rest (acc @ [r]) = Inr rs"
        by simp
      have "int (length (acc @ [r])) < limit" using go by simp
      from ScanRow.IH [OF rec ScanRow.prems(2) this]
      show ?thesis
        unfolding flt map_key_snoc [OF key] .
    qed
  qed
qed

text \<open>
  C7.  \<open>find_by_user_id\<close>, on tables whose scans stay in their bounds: every rating it
  returns carries the user asked for.  With a positive limit it returns at most \<open>limit\<close>
  ratings: the scan goes on past a kept row that leaves the ratings below the limit,
  stops at the row that completes them, whatever rows follow, and so returns one rating
  for each of the first \<open>limit\<close> scanned keys of exactly two parts, in the order of the
  scan.  Its result depends on the table only through the scan of the range from
  \<open>user_id + "_"\<close> to \<open>user_id + "_~"\<close>.
\<close>

theorem find_by_user_id_range_and_limit:
  "((\<forall>c t c'. get_ratings_table c = (Inr t, c') \<longrightarrow> respects_bounds t)
      \<and> find_by_user_id get_ratings_table uid limit self = (Inr rs, self')
      \<longrightarrow> (\<forall>r \<in> set rs. user_id r = uid))
   \<and> (0 < limit \<and> find_by_user_id get_ratings_table uid limit self = (Inr rs, self')
      \<longrightarrow> int (length rs) \<le> limit
        \<and> map (\<lambda>r. user_id r @ ''_'' @ movie_id r) rs
            = take (nat limit) (filter (\<lambda>key. length (split CHR ''_'' key) = 2)
                (scanned_keys (table self' (Some (uid @ ''_'')) (Some (uid @ ''_~''))))))
   \<and> (decode key = Inr key_str \<and> split CHR ''_'' key_str = [u, m]
      \<and> make_rating u m data = Inr r \<and> int (length ratings) + 1 \<ge> limit
      \<longrightarrow> scan_by_user_id limit (ScanRow key data rest) ratings = Inr (ratings @ [r]))
   \<and> (decode key = Inr key_str \<and> split CHR ''_'' key_str = [u, m]
      \<and> make_rating u m data = Inr r \<and> int (length ratings) + 1 < limit
      \<longrightarrow> scan_by_user_id limit (ScanRow key data rest) ratings
          = scan_by_user_id limit rest (ratings @ [r]))
   \<and> (t1 (Some (uid @ ''_'')) (Some (uid @ ''_~'')) = t2 (Some (uid @ ''_'')) (Some (uid @ ''_~''))
      \<longrightarrow> find_by_user_id_body uid limit t1 = find_by_user_id_body uid limit t2)"
proof (intro conjI impI)
  assume a: "(\<forall>c t c'. get_ratings_table c = (Inr t, c') \<longrightarrow> respects_bounds t)
      \<and> find_by_user_id get_ratings_table uid limit self = (Inr rs, self')"
  then obtain c c' where "get_ratings_table c = (Inr (table self'), c')"
    and body: "find_by_user_id_body uid limit (table self') = Inr rs"
    using find_by_user_id_Inr by blast
  with a have "respects_bounds (table self')" by blast
  then show "\<forall>r \<in> set rs. user_id r = uid"
    using body by (rule find_by_user_id_body_uid)
next
  assume a: "0 < limit \<and> find_by_user_id get_ratings_table uid limit self = (Inr rs, self')"
  then have "find_by_user_id_body uid limit (table self') = Inr rs"
    using find_by_user_id_Inr by blast
  then have sc: "scan_by_user_id limit
      (table self' (Some (uid @ ''_'')) (Some (uid @ ''_~''))) [] = Inr rs"
    by (simp add: find_by_user_id_body_def)
  from scan_user_length [OF sc] a show "int (length rs) \<le> limit"
    by simp
  from scan_user_keys [OF sc] a
  show "map (\<lambda>r. user_id r @ ''_'' @ movie_id r) rs
      = take (nat limit) (filter (\<lambda>key. length (split CHR ''_'' key) = 2)
          (scanned_keys (table self' (Some (uid @ ''_'')) (Some (uid @ ''_~'')))))"
    by simp
next
  assume "decode key = Inr key_str \<and> split CHR ''_'' key_str = [u, m]
      \<and> make_rating u m data = Inr r \<and> int (length ratings) + 1 \<ge> limit"
  then show "scan_by_user_id limit (ScanRow key data rest) ratings = Inr (ratings @ [r])"
    by simp
next
  assume "decode key = Inr key_str \<and> split CHR ''_'' key_str = [u, m]
      \<and> make_rating u m data = Inr r \<and> int (length ratings) + 1 < limit"
  then show "scan_by_user_id limit (ScanRow key data rest) ratings
      = scan_by_user_id limit rest (ratings @ [r])"
    by simp
next
  assume "t1 (Some (uid @ ''_'')) (Some (uid @ ''_~'')) = t2 (Some (uid @ ''_'')) (Some (uid @ ''_~''))"
  then show "find_by_user_id_body uid limit t1 = find_by_user_id_body uid limit t2"
    by (simp add: find_by_user_id_body_def)
qed

theorem find_by_user_id_range_and_limit_witness:
  "find_by_user_id (serve (store_table sample_rows)) ''u1'' 10 new_repository
     = (Inr [\<lparr>user_id = ''u1'', movie_id = ''m1'', rating = ''4.5'', timestamp = ''2024-01-02''\<rparr>,
             \<lparr>user_id = ''u1'', movie_id = ''m2'', rating = ''3'', timestamp = ''''\<rparr>],
        new_repository\<lparr>table := store_table sample_rows\<rparr>)
   \<and> find_by_user_id (serve (store_table sample_rows)) ''u1'' 1 new_repository
     = (Inr [\<lparr>user_id = ''u1'', movie_id = ''m1'', rating = ''4.5'', timestamp = ''2024-01-02''\<rparr>],
        new_repository\<lparr>table := store_table sample_rows\<rparr>)
   \<and> take (nat 10) (filter (\<lambda>key. length (split CHR ''_'' key) = 2)
        (scanned_keys (table (new_repository\<lparr>table := store_table sample_rows\<rparr>)
           (Some (''u1'' @ ''_'')) (Some (''u1'' @ ''_~'')))))
       = [''u1_m1'', ''u1_m2'']
   \<and> take (nat 1) (filter (\<lambda>key. length (split CHR ''_'' key) = 2)
        (scanned_keys (table (new_repository\<lparr>table := store_table sample_rows\<rparr>)
           (Some (''u1'' @ ''_'')) (Some (''u1'' @ ''_~'')))))
       = [''u1_m1'']
   \<and> scan_by_user_id 1 (ScanRow ''u1_m2'' no_columns (ScanFail broken_pipe)) []
        = Inr [\<lparr>user_id = ''u1'', movie_id = ''m2'', rating = ''0'', timestamp = ''''\<rparr>]
   \<and> scan_by_user_id 2 (ScanRow ''u1_m2'' no_columns (ScanFail broken_pipe)) []
        = Inl broken_pipe
   \<and> find_by_user_id_body ''u1'' 1 (store_table sample_rows)
        = find_by_user_id_body ''u1'' 1 (store_table (take 3 sample_rows))"
proof -
  let ?r1 = "\<lparr>user_id = ''u1'', movie_id = ''m1'', rating = ''4.5'', timestamp = ''2024-01-02''\<rparr>"
  let ?r2 = "\<lparr>user_id = ''u1'', movie_id = ''m2'', rating = ''3'', timestamp = ''''\<rparr>"
  let ?r0 = "\<lparr>user_id = ''u1'', movie_id = ''m2'', rating = ''0'', timestamp = ''''\<rparr>"
  let ?get = "serve (store_table sample_rows)"
  let ?self' = "new_repository\<lparr>table := store_table sample_rows\<rparr>"
  have run10: "find_by_user_id ?get ''u1'' 10 new_repository = (Inr [?r1, ?r2], ?self')"
    using sample_user_u1 by (rule find_by_user_id_serve)
  have run1: "find_by_user_id ?get ''u1'' 1 new_repository = (Inr [?r1], ?self')"
    using sample_user_u1_limit_1 by (rule find_by_user_id_serve)
  have bounds: "\<forall>c t c'. ?get c = (Inr t, c') \<longrightarrow> respects_bounds t"
    by (simp add: serve_def store_table_respects_bounds)
  have d: "decode ''u1_m2'' = Inr ''u1_m2''"
    by (simp add: decode_ascii)
  have sp: "split CHR ''_'' ''u1_m2'' = [''u1'', ''m2'']"
    by simp
  have mk: "make_rating ''u1'' ''m2'' no_columns = Inr ?r0"
    by (simp add: make_rating_def get_decoded_def no_columns_def decode_ascii)
  have same: "store_table sample_rows (Some (''u1'' @ ''_'')) (Some (''u1'' @ ''_~''))
      = store_table (take 3 sample_rows) (Some (''u1'' @ ''_'')) (Some (''u1'' @ ''_~''))"
    by (simp add: store_table_def sample_rows_def in_range_def)
  note ten = find_by_user_id_range_and_limit [where get_ratings_table = "?get"
      and uid = "''u1''" and limit = 10 and self = new_repository and rs = "[?r1, ?r2]"
      and self' = "?self'"]
  note one = find_by_user_id_range_and_limit [where get_ratings_table = "?get"
      and uid = "''u1''" and limit = 1 and self = new_repository and rs = "[?r1]"
      and self' = "?self'" and key = "''u1_m2''" and key_str = "''u1_m2''" and u = "''u1''"
      and m = "''m2''" and data = no_columns and r = "?r0" and ratings = "[]"
      and rest = "ScanFail broken_pipe" and ?t1.0 = "store_table sample_rows"
      and ?t2.0 = "store_table (take 3 sample_rows)"]
  note two = find_by_user_id_range_and_limit [where limit = 2 and key = "''u1_m2''"
      and key_str = "''u1_m2''" and u = "''u1''" and m = "''m2''" and data = no_columns
      and r = "?r0" and ratings = "[]" and rest = "ScanFail broken_pipe"]
  from ten run10 bounds have "\<forall>r \<in> set [?r1, ?r2]. user_id r = ''u1''" by blast
  from ten run10
  have "map (\<lambda>r. user_id r @ ''_'' @ movie_id r) [?r1, ?r2]
      = take (nat 10) (filter (\<lambda>key. length (split CHR ''_'' key) = 2)
          (scanned_keys (table ?self' (Some (''u1'' @ ''_'')) (Some (''u1'' @ ''_~'')))))"
    by simp
  then have keys10: "take (nat 10) (filter (\<lambda>key. length (split CHR ''_'' key) = 2)
          (scanned_keys (table ?self' (Some (''u1'' @ ''_'')) (Some (''u1'' @ ''_~'')))))
      = [''u1_m1'', ''u1_m2'']"
    by simp
  from one run1
  have "map (\<lambda>r. user_id r @ ''_'' @ movie_id r) [?r1]
      = take (nat 1) (filter (\<lambda>key. length (split CHR ''_'' key) = 2)
          (scanned_keys (table ?self' (Some (''u1'' @ ''_'')) (Some (''u1'' @ ''_~'')))))"
    by simp
  then have keys1: "take (nat 1) (filter (\<lambda>key. length (split CHR ''_'' key) = 2)
          (scanned_keys (table ?self' (Some (''u1'' @ ''_'')) (Some (''u1'' @ ''_~'')))))
      = [''u1_m1'']"
    by simp
  from one d sp mk have stop:
    "scan_by_user_id 1 (ScanRow ''u1_m2'' no_columns (ScanFail broken_pipe)) []
        = Inr ([] @ [?r0])"
    by simp
  from two d sp mk have
    "scan_by_user_id 2 (ScanRow ''u1_m2'' no_columns (ScanFail broken_pipe)) []
        = scan_by_user_id 2 (ScanFail broken_pipe) ([] @ [?r0])"
    by simp
  then have go: "scan_by_user_id 2 (ScanRow ''u1_m2'' no_columns (ScanFail broken_pipe)) []
        = Inl broken_pipe"
    by simp
  from one same have range: "find_by_user_id_body ''u1'' 1 (store_table sample_rows)
        = find_by_user_id_body ''u1'' 1 (store_table (take 3 sample_rows))" by blast
  show ?thesis using run10 run1 keys10 keys1 stop go range by simp
qed

text \<open>
  C8, as the claim states it, fails.  A key with exactly one delimiter and an empty part
  is kept: \<open>_m1\<close> is returned for the movie \<open>m1\<close> with an empty user, and \<open>u1_\<close> for the
  user \<open>u1\<close> with an empty movie.  A key that is not UTF-8 is not skipped either: it ends
  the scan with the decoder's exception.
\<close>

theorem skip_malformed_rows_counterexample:
  "split CHR ''_'' ''_m1'' = ['''', ''m1'']
   \<and> find_by_movie_id_body ''m1'' None (store_table empty_part_rows)
       = Inr [\<lparr>user_id = '''', movie_id = ''m1'', rating = ''0'', timestamp = ''''\<rparr>]
   \<and> split CHR ''_'' ''u1_'' = [''u1'', '''']
   \<and> find_by_user_id_body ''u1'' 10 (store_table empty_part_rows)
       = Inr [\<lparr>user_id = ''u1'', movie_id = '''', rating = ''0'', timestamp = ''''\<rparr>]
   \<and> find_by_movie_id_body ''m1'' None (store_table undecodable_rows)
       = Inl (decode_error (255, 0, 1, ''invalid start byte''))"
  using empty_part_movie empty_part_user undecodable_movie by simp

text \<open>
  C8, amended.  In both scans a row whose key decodes and splits on the delimiter into a
  number of parts other than two is skipped: the scan goes on as if the row were not
  there.  A kept row without a rating column gets the rating \<open>0\<close>, and one without a
  timestamp column the empty timestamp; a row of the movie scan that lacks both adds
  exactly this rating to the result.
\<close>

theorem skip_rows_without_two_parts:
  "(decode key = Inr key_str \<and> length (split CHR ''_'' key_str) \<noteq> 2 \<longrightarrow>
      scan_by_movie_id mid limit (ScanRow key data rest) ratings
        = scan_by_movie_id mid limit rest ratings
      \<and> scan_by_user_id n (ScanRow key data rest) ratings = scan_by_user_id n rest ratings)
   \<and> (data ''data:rating'' = None \<and> make_rating u m data = Inr r \<longrightarrow> rating r = ''0'')
   \<and> (data ''data:timestamp'' = None \<and> make_rating u m data = Inr r \<longrightarrow> timestamp r = '''')
   \<and> (data ''data:rating'' = None \<and> data ''data:timestamp'' = None \<longrightarrow>
        make_rating u m data = Inr \<lparr>user_id = u, movie_id = m, rating = ''0'', timestamp = ''''\<rparr>)
   \<and> (decode key = Inr key_str \<and> split CHR ''_'' key_str = [u, mid]
        \<and> data ''data:rating'' = None \<and> data ''data:timestamp'' = None \<longrightarrow>
        scan_by_movie_id mid None (ScanRow key data rest) ratings
          = scan_by_movie_id mid None rest
              (ratings @ [\<lparr>user_id = u, movie_id = mid, rating = ''0'', timestamp = ''''\<rparr>]))"
proof (intro conjI impI)
  assume a: "decode key = Inr key_str \<and> length (split CHR ''_'' key_str) \<noteq> 2"
  then have no: "\<And>a b. split CHR ''_'' key_str \<noteq> [a, b]" by auto
  show "scan_by_movie_id mid limit (ScanRow key data rest) ratings
        = scan_by_movie_id mid limit rest ratings"
    using a no by (simp split: list.splits)
  show "scan_by_user_id n (ScanRow key data rest) ratings = scan_by_user_id n rest ratings"
    using a no by (simp split: list.splits)
next
  assume "data ''data:rating'' = None \<and> make_rating u m data = Inr r"
  then show "rating r = ''0''"
    by (auto simp: make_rating_def get_decoded_def decode_ascii split: sum.splits)
next
  assume "data ''data:timestamp'' = None \<and> make_rating u m data = Inr r"
  then show "timestamp r = ''''"
    by (auto simp: make_rating_def get_decoded_def decode_ascii split: sum.splits)
next
  assume "data ''data:rating'' = None \<and> data ''data:timestamp'' = None"
  then show "make_rating u m data
      = Inr \<lparr>user_id = u, movie_id = m, rating = ''0'', timestamp = ''''\<rparr>"
    by (simp add: make_rating_def get_decoded_def decode_ascii)
next
  assume "decode key = Inr key_str \<and> split CHR ''_'' key_str = [u, mid]
        \<and> data ''data:rating'' = None \<and> data ''data:timestamp'' = None"
  then show "scan_by_movie_id mid None (ScanRow key data rest) ratings
          = scan_by_movie_id mid None rest
              (ratings @ [\<lparr>user_id = u, movie_id = mid, rating = ''0'', timestamp = ''''\<rparr>])"
    by (simp add: make_rating_def get_decoded_def decode_ascii)
qed

theorem skip_rows_without_two_parts_witness:
  "length (split CHR ''_'' ''u1_m2_x'') = 3
   \<and> scan_by_movie_id ''m1'' None (ScanRow ''u1_m2_x'' no_columns (ScanRow ''u2_m1'' no_columns ScanEnd)) []
       = Inr [\<lparr>user_id = ''u2'', movie_id = ''m1'', rating = ''0'', timestamp = ''''\<rparr>]
   \<and> scan_by_user_id 10 (ScanRow ''u1_m2_x'' no_columns ScanEnd) [] = Inr []"
proof -
  have d: "decode ''u1_m2_x'' = Inr ''u1_m2_x''" and d2: "decode ''u2_m1'' = Inr ''u2_m1''"
    by (simp_all add: decode_ascii)
  have len: "length (split CHR ''_'' ''u1_m2_x'') \<noteq> 2" by simp
  have sp: "split CHR ''_'' ''u2_m1'' = [''u2'', ''m1'']" by simp
  have none: "no_columns ''data:rating'' = None" "no_columns ''data:timestamp'' = None"
    by (simp_all add: no_columns_def)
  note skip = skip_rows_without_two_parts [of "''u1_m2_x''" "''u1_m2_x''" "''m1''" None no_columns
      "ScanRow ''u2_m1'' no_columns ScanEnd" "[]" 10]
  note skip' = skip_rows_without_two_parts [of "''u1_m2_x''" "''u1_m2_x''" "''m1''" None no_columns
      ScanEnd "[]" 10]
  note keep = skip_rows_without_two_parts [of "''u2_m1''" "''u2_m1''" "''m1''" None no_columns
      ScanEnd "[]" 10 "''u2''"]
  from skip d len
  have "scan_by_movie_id ''m1'' None (ScanRow ''u1_m2_x'' no_columns (ScanRow ''u2_m1'' no_columns ScanEnd)) []
      = scan_by_movie_id ''m1'' None (ScanRow ''u2_m1'' no_columns ScanEnd) []" by blast
  also from keep d2 sp none
  have "\<dots> = scan_by_movie_id ''m1'' None ScanEnd
      ([] @ [\<lparr>user_id = ''u2'', movie_id = ''m1'', rating = ''0'', timestamp = ''''\<rparr>])" by blast
  finally have one: "scan_by_movie_id ''m1'' None
      (ScanRow ''u1_m2_x'' no_columns (ScanRow ''u2_m1'' no_columns ScanEnd)) []
       = Inr [\<lparr>user_id = ''u2'', movie_id = ''m1'', rating = ''0'', timestamp = ''''\<rparr>]" by simp
  from skip' d len
  have "scan_by_user_id 10 (ScanRow ''u1_m2_x'' no_columns ScanEnd) [] = scan_by_user_id 10 ScanEnd []"
    by blast
  then have two: "scan_by_user_id 10 (ScanRow ''u1_m2_x'' no_columns ScanEnd) [] = Inr []" by simp
  show ?thesis using one two by simp
qed



section \<open>Properties of the rating statistics\<close>

lemma float_5: "float_of_decimal ''5'' = Inr 5"
  by (simp add: float_of_decimal_def is_digit_def nat_of_digits_def)
lemma float_3: "float_of_decimal ''3'' = Inr 3"
  by (simp add: float_of_decimal_def is_digit_def nat_of_digits_def)
lemma float_45: "float_of_decimal ''4.5'' = Inr 4.5"
  by (simp add: float_of_decimal_def is_digit_def nat_of_digits_def)

lemma count_of_increment:
  "count_of (increment k d) k' = (if k' = k then count_of d k + 1 else count_of d k')"
  by (induction d) (auto simp: count_of_def)

lemma keys_increment: "fst ` set (increment k d) = insert k (fst ` set d)"
  by (induction d) (auto split: if_splits simp: rev_image_eqI)

lemma distinct_increment: "distinct (map fst d) \<Longrightarrow> distinct (map fst (increment k d))"
proof (induction d)
  case (Cons a d)
  then show ?case using keys_increment [of k d] by (cases a) auto
qed simp

lemma sum_increment: "sum_list (map snd (increment k d)) = sum_list (map snd d) + 1"
  by (induction d) auto

lemma positive_increment:
  "list_all (\<lambda>kn. 0 < snd kn) d \<Longrightarrow> list_all (\<lambda>kn. 0 < snd kn) (increment k d)"
  by (induction d) auto

lemma stats_loop_Inr:
  "map (\<lambda>r. to_float (rating r)) rs = map Inr vs \<Longrightarrow>
     stats_loop to_float rs t d =
       Inr (t + sum_list vs, foldl (\<lambda>d v. increment (rating_key v) d) d vs)"
proof (induction rs arbitrary: vs t d)
  case Nil
  then show ?case by simp
next
  case (Cons r rs)
  then obtain v vs' where vs: "vs = v # vs'" "to_float (rating r) = Inr v"
    "map (\<lambda>r. to_float (rating r)) rs = map Inr vs'" by (cases vs) auto
  with Cons.IH [OF vs(3)] show ?case by (simp add: add.assoc)
qed

lemma stats_loop_values:
  "stats_loop to_float rs t d = Inr res \<Longrightarrow> \<exists>vs. map (\<lambda>r. to_float (rating r)) rs = map Inr vs"
proof (induction rs arbitrary: t d)
  case Nil
  then show ?case by simp
next
  case (Cons r rs)
  then obtain v where v: "to_float (rating r) = Inr v"
    and "stats_loop to_float rs (t + v) (increment (rating_key v) d) = Inr res"
    by (auto split: sum.splits)
  from Cons.IH [OF this(2)] obtain vs where "map (\<lambda>r. to_float (rating r)) rs = map Inr vs" by blast
  with v have "map (\<lambda>r. to_float (rating r)) (r # rs) = map Inr (v # vs)" by simp
  then show ?case by blast
qed

lemma fold_increment:
  "count_of (foldl (\<lambda>d v. increment (rating_key v) d) d vs) label
      = count_of d label + int (length (filter (\<lambda>v. rating_key v = label) vs))
   \<and> sum_list (map snd (foldl (\<lambda>d v. increment (rating_key v) d) d vs))
      = sum_list (map snd d) + int (length vs)
   \<and> (distinct (map fst d) \<longrightarrow> distinct (map fst (foldl (\<lambda>d v. increment (rating_key v) d) d vs)))
   \<and> (list_all (\<lambda>kn. 0 < snd kn) d \<longrightarrow>
        list_all (\<lambda>kn. 0 < snd kn) (foldl (\<lambda>d v. increment (rating_key v) d) d vs))"
proof (induction vs arbitrary: d)
  case Nil
  then show ?case by simp
next
  case (Cons v vs)
  show ?case
    using Cons.IH [of "increment (rating_key v) d"]
    by (simp add: count_of_increment sum_increment distinct_increment positive_increment)
qed

lemma compute_stats_values:
  assumes "rs \<noteq> []" and "map (\<lambda>r. to_float (rating r)) rs = map Inr vs"
  shows "compute_stats to_float rs =
     Inr \<lparr>avg_rating = sum_list vs / real (length vs), total_count = int (length vs),
          rating_distribution = foldl (\<lambda>d v. increment (rating_key v) d) [] vs\<rparr>"
proof -
  have "length rs = length vs" using assms(2) by (metis length_map)
  then show ?thesis
    using assms(1) stats_loop_Inr [OF assms(2), of 0 "[]"] by (simp add: compute_stats_def)
qed

lemma compute_stats_Inr:
  assumes "compute_stats to_float rs = Inr st"
  shows "sum_list (map snd (rating_distribution st)) = total_count st
    \<and> distinct (map fst (rating_distribution st))"
proof (cases "rs = []")
  case True
  with assms show ?thesis by (auto simp: compute_stats_def)
next
  case False
  with assms obtain res where "stats_loop to_float rs 0 [] = Inr res"
    by (auto simp: compute_stats_def split: sum.splits)
  from stats_loop_values [OF this] obtain vs
    where vs: "map (\<lambda>r. to_float (rating r)) rs = map Inr vs" by blast
  from compute_stats_values [OF False vs] assms
  have "st = \<lparr>avg_rating = sum_list vs / real (length vs), total_count = int (length vs),
          rating_distribution = foldl (\<lambda>d v. increment (rating_key v) d) [] vs\<rparr>" by simp
  then show ?thesis using fold_increment [of "[]" vs] by simp
qed

lemma get_rating_stats_Inr:
  assumes "get_rating_stats get to_float mid self = (Inr st, self')"
  shows "\<exists>c c' rs. get c = (Inr (table self'), c')
     \<and> find_by_movie_id_body mid None (table self') = Inr rs
     \<and> compute_stats to_float rs = Inr st"
proof -
  from retry_2_Inr [OF assms [unfolded get_rating_stats_def]]
  obtain s0 s1 where "get_rating_stats_body get to_float mid s1 = (Inr st, self')" by blast
  then obtain rs where f: "find_by_movie_id get mid None s1 = (Inr rs, self')"
    and c: "compute_stats to_float rs = Inr st"
    by (auto simp: get_rating_stats_body_def split: prod.splits sum.splits)
  from find_by_movie_id_Inr [OF f] c show ?thesis by blast
qed

lemma get_rating_stats_serve:
  "find_by_movie_id_body mid None t = Inr rs \<Longrightarrow> compute_stats to_float rs = Inr st \<Longrightarrow>
     get_rating_stats (serve t) to_float mid self = (Inr st, self\<lparr>table := t\<rparr>)"
  by (simp add: get_rating_stats_def get_rating_stats_body_def find_by_movie_id_def retry_2
      try_body_def refresh_table_def serve_def)

lemma rating_key_floor: "1 \<le> v \<Longrightarrow> rating_key v = str_int \<lfloor>v\<rfloor>"
  by (simp add: rating_key_def int_of_float_def)

lemma rating_key_half: "v < 1 \<Longrightarrow> rating_key v = ''0.5''"
  by (simp add: rating_key_def)

lemma rating_key_5: "rating_key 5 = ''5''"
  by (simp add: rating_key_def int_of_float_def str_int_def str_nat.simps digit_char_def)

lemma rating_key_3: "rating_key 3 = ''3''"
  by (simp add: rating_key_def int_of_float_def str_int_def str_nat.simps digit_char_def)

lemma scenario_found:
  "find_by_movie_id_body ''m1'' None (store_table scenario_rows) =
     Inr [\<lparr>user_id = ''u1'', movie_id = ''m1'', rating = ''5'', timestamp = ''''\<rparr>,
          \<lparr>user_id = ''u2'', movie_id = ''m1'', rating = ''3'', timestamp = ''''\<rparr>]"
  by (simp add: find_by_movie_id_body_def store_table_def scenario_rows_def in_range_def
      decode_ascii make_rating_def get_decoded_def)

lemma distribution_lookup:
  assumes "d = foldl (\<lambda>d v. increment (rating_key v) d) [] vs"
  shows "map_of d label =
     (if filter (\<lambda>v. rating_key v = label) vs = [] then None
      else Some (int (length (filter (\<lambda>v. rating_key v = label) vs))))"
proof -
  from fold_increment [of "[]" vs label] assms
  have c: "count_of d label = int (length (filter (\<lambda>v. rating_key v = label) vs))"
    and p: "list_all (\<lambda>kn. 0 < snd kn) d"
    by (simp_all add: count_of_def)
  show ?thesis
  proof (cases "map_of d label")
    case None
    with c show ?thesis by (simp add: count_of_def)
  next
    case (Some n)
    then have "(label, n) \<in> set d" by (rule map_of_SomeD)
    with p have "0 < n" by (auto simp: list_all_iff)
    with c Some show ?thesis by (auto simp: count_of_def)
  qed
qed

lemma scenario_stats:
  assumes "to_float ''5'' = Inr 5" and "to_float ''3'' = Inr 3"
  shows "compute_stats to_float
      [\<lparr>user_id = ''u1'', movie_id = ''m1'', rating = ''5'', timestamp = ''''\<rparr>,
       \<lparr>user_id = ''u2'', movie_id = ''m1'', rating = ''3'', timestamp = ''''\<rparr>]
     = Inr \<lparr>avg_rating = 4, total_count = 2, rating_distribution = [(''5'', 1), (''3'', 1)]\<rparr>"
  using assms by (simp add: compute_stats_def rating_key_5 rating_key_3)

text \<open>
  C2.  The statistics of no ratings are the average 0, the count 0 and the empty
  distribution.  For ratings whose strings \<open>float\<close> converts to the values \<open>vs\<close>, the
  average is the sum of the values divided by their number, the count is their number,
  and the distribution maps a label to the number of values with that label, labels with
  no value being absent; the label of a value of at least 1 is \<open>str\<close> of its floor, the
  label of a value below 1 is \<open>0.5\<close>.  The ratings that \<open>get_rating_stats\<close> reduces are
  those of an unlimited \<open>find_by_movie_id\<close>: they carry the movie asked for, one for each
  scanned key whose second part is the movie.  On the rows \<open>u1_m1\<close> with rating 5 and
  \<open>u2_m1\<close> with rating 3 the statistics of \<open>m1\<close> are the average 4, the count 2 and one
  rating under each of the labels \<open>5\<close> and \<open>3\<close>.
\<close>

theorem rating_stats_of_movie:
  "compute_stats to_float [] = Inr \<lparr>avg_rating = 0, total_count = 0, rating_distribution = []\<rparr>
   \<and> (rs \<noteq> [] \<and> map (\<lambda>r. to_float (rating r)) rs = map Inr vs \<longrightarrow>
        (\<exists>d. compute_stats to_float rs
               = Inr \<lparr>avg_rating = sum_list vs / real (length vs),
                      total_count = int (length vs), rating_distribution = d\<rparr>
             \<and> distinct (map fst d)
             \<and> (\<forall>label. map_of d label =
                   (if filter (\<lambda>v. rating_key v = label) vs = [] then None
                    else Some (int (length (filter (\<lambda>v. rating_key v = label) vs)))))))
   \<and> (1 \<le> v \<longrightarrow> rating_key v = str_int \<lfloor>v\<rfloor>)
   \<and> (v < 1 \<longrightarrow> rating_key v = ''0.5'')
   \<and> (get_rating_stats get_ratings_table to_float mid self = (Inr st, self') \<longrightarrow>
        (\<exists>c c' found. get_ratings_table c = (Inr (table self'), c')
           \<and> find_by_movie_id_body mid None (table self') = Inr found
           \<and> (\<forall>r \<in> set found. movie_id r = mid)
           \<and> map (\<lambda>r. user_id r @ ''_'' @ movie_id r) found
               = filter (\<lambda>key. case split CHR ''_'' key of [u, m] \<Rightarrow> m = mid | _ \<Rightarrow> False)
                   (scanned_keys (table self' None None))
           \<and> compute_stats to_float found = Inr st))
   \<and> (to_float ''5'' = Inr 5 \<and> to_float ''3'' = Inr 3 \<longrightarrow>
        get_rating_stats (serve (store_table scenario_rows)) to_float ''m1'' new_repository
          = (Inr \<lparr>avg_rating = 4, total_count = 2,
                  rating_distribution = [(''5'', 1), (''3'', 1)]\<rparr>,
             new_repository\<lparr>table := store_table scenario_rows\<rparr>))"
proof (intro conjI impI)
  show "compute_stats to_float []
      = Inr \<lparr>avg_rating = 0, total_count = 0, rating_distribution = []\<rparr>"
    by (simp add: compute_stats_def)
next
  assume a: "rs \<noteq> [] \<and> map (\<lambda>r. to_float (rating r)) rs = map Inr vs"
  let ?d = "foldl (\<lambda>d v. increment (rating_key v) d) [] vs"
  from a have "compute_stats to_float rs
      = Inr \<lparr>avg_rating = sum_list vs / real (length vs), total_count = int (length vs),
             rating_distribution = ?d\<rparr>"
    by (simp add: compute_stats_values)
  moreover have "distinct (map fst ?d)"
    using fold_increment [of "[]" vs] by simp
  moreover have "\<forall>label. map_of ?d label =
      (if filter (\<lambda>v. rating_key v = label) vs = [] then None
       else Some (int (length (filter (\<lambda>v. rating_key v = label) vs))))"
    using distribution_lookup [of ?d vs] by blast
  ultimately show "\<exists>d. compute_stats to_float rs
               = Inr \<lparr>avg_rating = sum_list vs / real (length vs),
                      total_count = int (length vs), rating_distribution = d\<rparr>
             \<and> distinct (map fst d)
             \<and> (\<forall>label. map_of d label =
                   (if filter (\<lambda>v. rating_key v = label) vs = [] then None
                    else Some (int (length (filter (\<lambda>v. rating_key v = label) vs)))))"
    by blast
next
  assume "1 \<le> v"
  then show "rating_key v = str_int \<lfloor>v\<rfloor>" by (rule rating_key_floor)
next
  assume "v < 1"
  then show "rating_key v = ''0.5''" by (rule rating_key_half)
next
  assume "get_rating_stats get_ratings_table to_float mid self = (Inr st, self')"
  from get_rating_stats_Inr [OF this] obtain c c' found
    where g: "get_ratings_table c = (Inr (table self'), c')"
      and f: "find_by_movie_id_body mid None (table self') = Inr found"
      and s: "compute_stats to_float found = Inr st" by blast
  from f have sc: "scan_by_movie_id mid None (table self' None None) [] = Inr found"
    by (simp add: find_by_movie_id_body_def)
  from scan_movie_movie_id [OF sc] have m: "\<forall>r \<in> set found. movie_id r = mid" by simp
  from scan_movie_keys [OF sc]
  have k: "map (\<lambda>r. user_id r @ ''_'' @ movie_id r) found
      = filter (\<lambda>key. case split CHR ''_'' key of [u, m] \<Rightarrow> m = mid | _ \<Rightarrow> False)
          (scanned_keys (table self' None None))" by simp
  from g f m k s
  show "\<exists>c c' found. get_ratings_table c = (Inr (table self'), c')
           \<and> find_by_movie_id_body mid None (table self') = Inr found
           \<and> (\<forall>r \<in> set found. movie_id r = mid)
           \<and> map (\<lambda>r. user_id r @ ''_'' @ movie_id r) found
               = filter (\<lambda>key. case split CHR ''_'' key of [u, m] \<Rightarrow> m = mid | _ \<Rightarrow> False)
                   (scanned_keys (table self' None None))
           \<and> compute_stats to_float found = Inr st"
    by blast
next
  assume "to_float ''5'' = Inr 5 \<and> to_float ''3'' = Inr 3"
  then have "compute_stats to_float
      [\<lparr>user_id = ''u1'', movie_id = ''m1'', rating = ''5'', timestamp = ''''\<rparr>,
       \<lparr>user_id = ''u2'', movie_id = ''m1'', rating = ''3'', timestamp = ''''\<rparr>]
     = Inr \<lparr>avg_rating = 4, total_count = 2, rating_distribution = [(''5'', 1), (''3'', 1)]\<rparr>"
    by (simp add: scenario_stats)
  with scenario_found
  show "get_rating_stats (serve (store_table scenario_rows)) to_float ''m1'' new_repository
          = (Inr \<lparr>avg_rating = 4, total_count = 2,
                  rating_distribution = [(''5'', 1), (''3'', 1)]\<rparr>,
             new_repository\<lparr>table := store_table scenario_rows\<rparr>)"
    by (rule get_rating_stats_serve)
qed

theorem rating_stats_of_movie_witness:
  "get_rating_stats (serve (store_table scenario_rows)) float_of_decimal ''m1'' new_repository
     = (Inr \<lparr>avg_rating = 4, total_count = 2, rating_distribution = [(''5'', 1), (''3'', 1)]\<rparr>,
        new_repository\<lparr>table := store_table scenario_rows\<rparr>)
   \<and> compute_stats float_of_decimal
        [\<lparr>user_id = ''u1'', movie_id = ''m1'', rating = ''5'', timestamp = ''''\<rparr>,
         \<lparr>user_id = ''u2'', movie_id = ''m1'', rating = ''3'', timestamp = ''''\<rparr>]
       = Inr \<lparr>avg_rating = 4, total_count = 2, rating_distribution = [(''5'', 1), (''3'', 1)]\<rparr>
   \<and> rating_key (7 / 2) = ''3''
   \<and> rating_key (1 / 2) = ''0.5''"
proof -
  let ?r1 = "\<lparr>user_id = ''u1'', movie_id = ''m1'', rating = ''5'', timestamp = ''''\<rparr>"
  let ?r2 = "\<lparr>user_id = ''u2'', movie_id = ''m1'', rating = ''3'', timestamp = ''''\<rparr>"
  let ?st = "\<lparr>avg_rating = 4, total_count = 2, rating_distribution = [(''5'', 1), (''3'', 1)]\<rparr>"
  let ?self' = "new_repository\<lparr>table := store_table scenario_rows\<rparr>"
  note inst = rating_stats_of_movie [of float_of_decimal "[?r1, ?r2]" "[5, 3]" "7 / 2"
      "serve (store_table scenario_rows)" "''m1''" new_repository ?st ?self']
  note low = rating_stats_of_movie [of float_of_decimal "[?r1, ?r2]" "[5, 3]" "1 / 2"
      "serve (store_table scenario_rows)" "''m1''" new_repository ?st ?self']
  from inst float_5 float_3
  have run: "get_rating_stats (serve (store_table scenario_rows)) float_of_decimal ''m1''
      new_repository = (Inr ?st, ?self')" by blast
  with inst obtain found
    where "find_by_movie_id_body ''m1'' None (table ?self') = Inr found"
      and "compute_stats float_of_decimal found = Inr ?st" by blast
  with scenario_found have stats: "compute_stats float_of_decimal [?r1, ?r2] = Inr ?st"
    by simp
  have "(1::real) \<le> 7 / 2" by simp
  with inst have "rating_key (7 / 2) = str_int \<lfloor>7 / 2 :: real\<rfloor>" by blast
  then have three: "rating_key (7 / 2) = ''3''"
    by (simp add: str_int_def str_nat.simps digit_char_def)
  have "(1 / 2 :: real) < 1" by simp
  with low have half: "rating_key (1 / 2) = ''0.5''" by blast
  show ?thesis using run stats three half by blast
qed

lemma float_35: "float_of_decimal ''3.5'' = Inr (7 / 2)"
  by (simp add: float_of_decimal_def is_digit_def nat_of_digits_def)
lemma float_05: "float_of_decimal ''0.5'' = Inr (1 / 2)"
  by (simp add: float_of_decimal_def is_digit_def nat_of_digits_def)

lemma rating_key_35: "rating_key (7 / 2) = ''3''"
  by (simp add: rating_key_def int_of_float_def str_int_def str_nat.simps digit_char_def)

lemma bucket_found:
  "find_by_movie_id_body ''m1'' None (store_table bucket_rows) =
     Inr [\<lparr>user_id = ''u1'', movie_id = ''m1'', rating = ''3.5'', timestamp = ''''\<rparr>,
          \<lparr>user_id = ''u2'', movie_id = ''m1'', rating = ''3'', timestamp = ''''\<rparr>,
          \<lparr>user_id = ''u3'', movie_id = ''m1'', rating = ''0.5'', timestamp = ''''\<rparr>]"
  by (simp add: find_by_movie_id_body_def store_table_def bucket_rows_def in_range_def
      decode_ascii make_rating_def get_decoded_def)

lemma bucket_stats:
  "compute_stats float_of_decimal
      [\<lparr>user_id = ''u1'', movie_id = ''m1'', rating = ''3.5'', timestamp = ''''\<rparr>,
       \<lparr>user_id = ''u2'', movie_id = ''m1'', rating = ''3'', timestamp = ''''\<rparr>,
       \<lparr>user_id = ''u3'', movie_id = ''m1'', rating = ''0.5'', timestamp = ''''\<rparr>]
     = Inr \<lparr>avg_rating = 7 / 3, total_count = 3,
            rating_distribution = [(''3'', 2), (''0.5'', 1)]\<rparr>"
  by (simp add: compute_stats_def float_35 float_3 float_05 rating_key_35 rating_key_3
      rating_key_half)

lemma bucket_run:
  "get_rating_stats (serve (store_table bucket_rows)) float_of_decimal ''m1'' new_repository
     = (Inr \<lparr>avg_rating = 7 / 3, total_count = 3,
             rating_distribution = [(''3'', 2), (''0.5'', 1)]\<rparr>,
        new_repository\<lparr>table := store_table bucket_rows\<rparr>)"
  using bucket_found bucket_stats by (rule get_rating_stats_serve)

lemma compute_stats_counts:
  assumes "compute_stats to_float found = Inr st"
  shows "\<exists>vs. map (\<lambda>r. to_float (rating r)) found = map Inr vs
     \<and> total_count st = int (length found)
     \<and> sum_list (map snd (rating_distribution st)) = int (length found)
     \<and> distinct (map fst (rating_distribution st))
     \<and> (\<forall>label. map_of (rating_distribution st) label =
           (if filter (\<lambda>v. rating_key v = label) vs = [] then None
            else Some (int (length (filter (\<lambda>v. rating_key v = label) vs)))))"
proof (cases "found = []")
  case True
  with assms have "st = \<lparr>avg_rating = 0, total_count = 0, rating_distribution = []\<rparr>"
    by (simp add: compute_stats_def)
  with True have "map (\<lambda>r. to_float (rating r)) found = map Inr []
     \<and> total_count st = int (length found)
     \<and> sum_list (map snd (rating_distribution st)) = int (length found)
     \<and> distinct (map fst (rating_distribution st))
     \<and> (\<forall>label. map_of (rating_distribution st) label =
           (if filter (\<lambda>v. rating_key v = label) [] = [] then None
            else Some (int (length (filter (\<lambda>v. rating_key v = label) ([] :: real list))))))"
    by simp
  then show ?thesis by (rule exI)
next
  case False
  let ?d = "\<lambda>vs. foldl (\<lambda>d v. increment (rating_key v) d) [] vs"
  from False assms obtain res where "stats_loop to_float found 0 [] = Inr res"
    by (auto simp: compute_stats_def split: sum.splits)
  from stats_loop_values [OF this] obtain vs
    where vs: "map (\<lambda>r. to_float (rating r)) found = map Inr vs" by blast
  then have len: "length found = length vs" by (metis length_map)
  from compute_stats_values [OF False vs] assms
  have st: "st = \<lparr>avg_rating = sum_list vs / real (length vs), total_count = int (length vs),
          rating_distribution = ?d vs\<rparr>" by simp
  have total: "total_count st = int (length found)" using st len by simp
  have sum: "sum_list (map snd (rating_distribution st)) = int (length found)"
    using st len fold_increment [of "[]" vs] by simp
  have dist: "distinct (map fst (rating_distribution st))"
    using st fold_increment [of "[]" vs] by simp
  have "rating_distribution st = ?d vs" using st by simp
  then have look: "\<forall>label. map_of (rating_distribution st) label =
           (if filter (\<lambda>v. rating_key v = label) vs = [] then None
            else Some (int (length (filter (\<lambda>v. rating_key v = label) vs))))"
    using distribution_lookup [of "rating_distribution st" vs] by blast
  from vs total sum dist look show ?thesis by blast
qed

text \<open>
  C10.  In every result of \<open>get_rating_stats\<close> the counts of the distribution add up to
  the total count, and both are the number of ratings that the unlimited
  \<open>find_by_movie_id\<close> found for the movie: \<open>float\<close> converts every one of them, the
  count of a label is the number of converted values with that label, a label with no
  value is absent, and no label occurs twice.  No rating is dropped or counted twice.
\<close>

theorem distribution_sums_to_total_count:
  "get_rating_stats get_ratings_table to_float mid self = (Inr st, self') \<Longrightarrow>
     \<exists>found vs. find_by_movie_id_body mid None (table self') = Inr found
       \<and> map (\<lambda>r. to_float (rating r)) found = map Inr vs
       \<and> total_count st = int (length found)
       \<and> sum_list (map snd (rating_distribution st)) = int (length found)
       \<and> sum_list (map snd (rating_distribution st)) = total_count st
       \<and> distinct (map fst (rating_distribution st))
       \<and> (\<forall>label. map_of (rating_distribution st) label =
             (if filter (\<lambda>v. rating_key v = label) vs = [] then None
              else Some (int (length (filter (\<lambda>v. rating_key v = label) vs)))))"
proof -
  assume "get_rating_stats get_ratings_table to_float mid self = (Inr st, self')"
  from get_rating_stats_Inr [OF this] obtain found
    where f: "find_by_movie_id_body mid None (table self') = Inr found"
      and s: "compute_stats to_float found = Inr st" by blast
  from compute_stats_counts [OF s] obtain vs
    where "map (\<lambda>r. to_float (rating r)) found = map Inr vs"
      and "total_count st = int (length found)"
      and "sum_list (map snd (rating_distribution st)) = int (length found)"
      and "distinct (map fst (rating_distribution st))"
      and "\<forall>label. map_of (rating_distribution st) label =
             (if filter (\<lambda>v. rating_key v = label) vs = [] then None
              else Some (int (length (filter (\<lambda>v. rating_key v = label) vs))))"
    by blast
  with f show ?thesis by (intro exI [of _ found] exI [of _ vs]) simp
qed

theorem distribution_sums_to_total_count_witness:
  "get_rating_stats (serve (store_table bucket_rows)) float_of_decimal ''m1'' new_repository
     = (Inr \<lparr>avg_rating = 7 / 3, total_count = 3,
             rating_distribution = [(''3'', 2), (''0.5'', 1)]\<rparr>,
        new_repository\<lparr>table := store_table bucket_rows\<rparr>)
   \<and> find_by_movie_id_body ''m1'' None (store_table bucket_rows) =
       Inr [\<lparr>user_id = ''u1'', movie_id = ''m1'', rating = ''3.5'', timestamp = ''''\<rparr>,
            \<lparr>user_id = ''u2'', movie_id = ''m1'', rating = ''3'', timestamp = ''''\<rparr>,
            \<lparr>user_id = ''u3'', movie_id = ''m1'', rating = ''0.5'', timestamp = ''''\<rparr>]
   \<and> map (\<lambda>r. float_of_decimal (rating r))
        [\<lparr>user_id = ''u1'', movie_id = ''m1'', rating = ''3.5'', timestamp = ''''\<rparr>,
         \<lparr>user_id = ''u2'', movie_id = ''m1'', rating = ''3'', timestamp = ''''\<rparr>,
         \<lparr>user_id = ''u3'', movie_id = ''m1'', rating = ''0.5'', timestamp = ''''\<rparr>]
       = map Inr [7 / 2, 3, 1 / 2]
   \<and> map rating_key [7 / 2, 3, 1 / 2] = [''3'', ''3'', ''0.5'']
   \<and> sum_list (map snd (rating_distribution
        \<lparr>avg_rating = 7 / 3, total_count = 3,
         rating_distribution = [(''3'', 2), (''0.5'', 1)]\<rparr>)) = 3
   \<and> map_of (rating_distribution
        \<lparr>avg_rating = 7 / 3, total_count = 3,
         rating_distribution = [(''3'', 2), (''0.5'', 1)]\<rparr>) ''3'' = Some 2
   \<and> map_of (rating_distribution
        \<lparr>avg_rating = 7 / 3, total_count = 3,
         rating_distribution = [(''3'', 2), (''0.5'', 1)]\<rparr>) ''5'' = None"
proof -
  let ?r1 = "\<lparr>user_id = ''u1'', movie_id = ''m1'', rating = ''3.5'', timestamp = ''''\<rparr>"
  let ?r2 = "\<lparr>user_id = ''u2'', movie_id = ''m1'', rating = ''3'', timestamp = ''''\<rparr>"
  let ?r3 = "\<lparr>user_id = ''u3'', movie_id = ''m1'', rating = ''0.5'', timestamp = ''''\<rparr>"
  let ?st = "\<lparr>avg_rating = 7 / 3, total_count = 3,
      rating_distribution = [(''3'', 2), (''0.5'', 1)]\<rparr>"
  let ?self' = "new_repository\<lparr>table := store_table bucket_rows\<rparr>"
  have keys: "map rating_key [7 / 2, 3, 1 / 2] = [''3'', ''3'', ''0.5'']"
    by (simp add: rating_key_35 rating_key_3 rating_key_half)
  from distribution_sums_to_total_count [OF bucket_run] obtain found vs
    where f: "find_by_movie_id_body ''m1'' None (table ?self') = Inr found"
      and v: "map (\<lambda>r. float_of_decimal (rating r)) found = map Inr vs"
      and s: "sum_list (map snd (rating_distribution ?st)) = int (length found)"
      and l: "\<forall>label. map_of (rating_distribution ?st) label =
             (if filter (\<lambda>v. rating_key v = label) vs = [] then None
              else Some (int (length (filter (\<lambda>v. rating_key v = label) vs))))"
    by blast
  from f bucket_found have found: "found = [?r1, ?r2, ?r3]" by simp
  with v have "map Inr vs = [Inr (7 / 2), Inr 3, Inr (1 / 2) :: exn + real]"
    by (simp add: float_35 float_3 float_05)
  then have vs: "vs = [7 / 2, 3, 1 / 2]" by auto
  from v found vs have conv: "map (\<lambda>r. float_of_decimal (rating r)) [?r1, ?r2, ?r3]
      = map Inr [7 / 2, 3, 1 / 2]" by simp
  from s found have sum: "sum_list (map snd (rating_distribution ?st)) = 3" by simp
  from l have "map_of (rating_distribution ?st) ''3'' =
        (if filter (\<lambda>v. rating_key v = ''3'') vs = [] then None
         else Some (int (length (filter (\<lambda>v. rating_key v = ''3'') vs))))" by (rule spec)
  then have three: "map_of (rating_distribution ?st) ''3'' = Some 2"
    unfolding vs by (simp add: rating_key_35 rating_key_3 rating_key_half)
  from l have "map_of (rating_distribution ?st) ''5'' =
        (if filter (\<lambda>v. rating_key v = ''5'') vs = [] then None
         else Some (int (length (filter (\<lambda>v. rating_key v = ''5'') vs))))" by (rule spec)
  then have five: "map_of (rating_distribution ?st) ''5'' = None"
    unfolding vs by (simp add: rating_key_35 rating_key_3 rating_key_half)
  from bucket_run bucket_found conv keys sum three five show ?thesis by (intro conjI)
qed

section \<open>Properties of the movie list\<close>

lemma mset_insort_by: "mset (insort_by le x xs) = add_mset x (mset xs)"
  by (induction xs) auto

lemma mset_sort_by: "mset (sort_by le xs) = mset xs"
  unfolding sort_by_def by (induction xs) (auto simp: mset_insort_by)

lemma set_insort_by: "set (insort_by le x xs) = insert x (set xs)"
  by (induction xs) auto

lemma sorted_insort_by:
  assumes total: "\<And>a b. le a b \<or> le b a" and trans: "\<And>a b c. le a b \<Longrightarrow> le b c \<Longrightarrow> le a c"
  shows "sorted_wrt le xs \<Longrightarrow> sorted_wrt le (insort_by le x xs)"
proof (induction xs)
  case Nil
  then show ?case by simp
next
  case (Cons y ys)
  show ?case
  proof (cases "le x y")
    case True
    then have "\<forall>z \<in> set ys. le x z" using Cons.prems trans by auto
    then show ?thesis using True Cons.prems by simp
  next
    case False
    then have "le y x" using total by blast
    then show ?thesis using False Cons by (auto simp: set_insort_by)
  qed
qed

lemma sorted_sort_by:
  assumes total: "\<And>a b. le a b \<or> le b a" and trans: "\<And>a b c. le a b \<Longrightarrow> le b c \<Longrightarrow> le a c"
  shows "sorted_wrt le (sort_by le xs)"
  unfolding sort_by_def
proof (induction xs)
  case Nil
  then show ?case by simp
next
  case (Cons x xs)
  then show ?case using sorted_insort_by [of le, OF total trans] by simp
qed

lemma mset_list_sort: "mset (list_sort key reverse xs) = mset xs"
  by (simp add: list_sort_def mset_sort_by)

lemma length_list_sort: "length (list_sort key reverse xs) = length xs"
  by (metis mset_list_sort size_mset)

lemma sorted_list_sort_desc: "sorted_wrt (\<lambda>a b. key b \<le> key a) (list_sort key True xs)"
proof -
  have "sorted_wrt (\<lambda>a b. key b \<le> key a) (sort_by (\<lambda>a b. key b \<le> key a) xs)"
    by (rule sorted_sort_by) auto
  then show ?thesis by (simp add: list_sort_def)
qed

lemma sorted_list_sort_asc: "sorted_wrt (\<lambda>a b. key a \<le> key b) (list_sort key False xs)"
proof -
  have "sorted_wrt (\<lambda>a b. key a \<le> key b) (sort_by (\<lambda>a b. key a \<le> key b) xs)"
    by (rule sorted_sort_by) auto
  then show ?thesis by (simp add: list_sort_def)
qed

lemma py_slice_page:
  assumes "0 \<le> start" and "0 \<le> k"
  shows "py_slice xs start (start + k) = take (nat k) (drop (nat start) xs)"
proof (cases "start \<ge> int (length xs)")
  case True
  then show ?thesis using assms by (simp add: py_slice_def Let_def min_def)
next
  case False
  then have lo: "min start (int (length xs)) = start" by simp
  show ?thesis
  proof (cases "start + k \<le> int (length xs)")
    case True
    then show ?thesis using assms lo by (simp add: py_slice_def Let_def)
  next
    case False
    then have "min (start + k) (int (length xs)) = int (length xs)" by simp
    moreover have "length (drop (nat start) xs) \<le> nat k" using False assms by simp
    moreover have "length (drop (nat start) xs) \<le> nat (int (length xs) - start)" using assms by simp
    ultimately show ?thesis using assms lo by (simp add: py_slice_def Let_def)
  qed
qed

lemma concat_pages_nat:
  "concat (map (\<lambda>i. take k (drop (i * k) xs)) [0 ..< m]) = take (m * k) xs"
proof (induction m)
  case 0
  then show ?case by simp
next
  case (Suc m)
  have "take (m * k) xs @ take k (drop (m * k) xs) = take (m * k + k) xs"
    by (simp add: take_add)
  then show ?case using Suc by (simp add: add.commute)
qed

lemma upto_as_upt: "[1 .. int m] = map (\<lambda>i. int i + 1) [0 ..< m]"
proof (induction m)
  case 0
  then show ?case by simp
next
  case (Suc m)
  have "[1 .. int (Suc m)] = [1 .. int m] @ [int m + 1]"
    using upto_rec2 [of 1 "int (Suc m)"] by (simp add: add.commute)
  then show ?case using Suc by simp
qed

lemma ceiling_pages:
  fixes n k :: int
  assumes "1 \<le> k" and "0 \<le> n"
  shows "(n + k - 1) div k = \<lceil>real_of_int n / real_of_int k\<rceil>"
proof -
  have k: "k \<noteq> 0" "0 < k" using assms(1) by simp_all
  have c: "\<lceil>real_of_int n / real_of_int k\<rceil> = (if n mod k = 0 then n div k else n div k + 1)"
    by (simp add: ceiling_divide_eq_div zdiv_zminus1_eq_if [OF k(1)])
  have r: "0 \<le> n mod k" "n mod k < k" using k by simp_all
  have e: "n + k - 1 = (n div k) * k + (n mod k + k - 1)" by simp
  show ?thesis
  proof (cases "n mod k = 0")
    case True
    have "(n + k - 1) div k = n div k + (k - 1) div k"
      using True e k by (metis add.commute add_0 div_mult_self3 add_diff_eq)
    also have "(k - 1) div k = 0" using k by simp
    finally show ?thesis using True c by simp
  next
    case False
    then have "1 \<le> n mod k" using r by linarith
    have "n + k - 1 = (n div k + 1) * k + (n mod k - 1)"
      by (simp add: algebra_simps)
    then have "(n + k - 1) div k = (n div k + 1) + (n mod k - 1) div k"
      using k by (metis add.commute div_mult_self3)
    also have "(n mod k - 1) div k = 0"
      using \<open>1 \<le> n mod k\<close> r by (simp add: div_pos_pos_trivial)
    finally show ?thesis using False c by simp
  qed
qed

lemma sample_converted:
  "convert_all (to_movie float_of_decimal int_of_decimal) sample_movies = Inr [heat, the_matrix, alien]"
  by (simp add: sample_movies_def to_movie_def float_of_decimal_def int_of_decimal_def
      ascii_isdigit_def is_digit_def nat_of_digits_def the_matrix_def heat_def alien_def)

lemma sample_sorted:
  "list_sort (\<lambda>x. (avg_rating' x, rating_count x)) True [heat, the_matrix, alien]
     = [heat, alien, the_matrix]"
  by (simp add: list_sort_def sort_by_def the_matrix_def heat_def alien_def)

lemma get_movies_list_page:
  assumes "1 \<le> page" and "1 \<le> page_size"
    and "convert_all (to_movie to_float to_int) all_movies_data = Inr converted"
  shows "get_movies_list to_float to_int (Inr all_movies_data) page page_size
     = Inr (take (nat page_size) (drop (nat ((page - 1) * page_size))
              (list_sort (\<lambda>x. (avg_rating' x, rating_count x)) True converted)),
            int (length converted),
            \<lceil>real (length converted) / real_of_int page_size\<rceil>)"
proof -
  let ?all = "list_sort (\<lambda>x. (avg_rating' x, rating_count x)) True converted"
  have len: "length ?all = length converted" by (rule length_list_sort)
  have "floordiv (int (length ?all) + page_size - 1) page_size
      = Inr \<lceil>real_of_int (int (length converted)) / real_of_int page_size\<rceil>"
    using assms(2) ceiling_pages [of page_size "int (length converted)"]
    by (simp add: floordiv_def len)
  moreover have "py_slice ?all ((page - 1) * page_size) ((page - 1) * page_size + page_size)
      = take (nat page_size) (drop (nat ((page - 1) * page_size)) ?all)"
    using assms(1,2) by (intro py_slice_page) simp_all
  ultimately show ?thesis
    using assms(3) by (simp add: get_movies_list_def Let_def len)
qed

lemma all_pages:
  assumes "1 \<le> k"
  shows "concat (map (\<lambda>p. take (nat k) (drop (nat ((p - 1) * k)) xs))
            [1 .. \<lceil>real (length xs) / real_of_int k\<rceil>]) = xs"
proof -
  let ?tp = "\<lceil>real (length xs) / real_of_int k\<rceil>"
  let ?m = "nat ?tp"
  have "0 \<le> real (length xs) / real_of_int k" using assms by simp
  then have "- 1 < real (length xs) / real_of_int k" by linarith
  then have tp: "0 \<le> ?tp" by simp
  then have up: "[1 .. ?tp] = map (\<lambda>i. int i + 1) [0 ..< ?m]"
    using upto_as_upt [of ?m] by simp
  have kpos: "0 < real_of_int k" using assms by simp
  have le: "real (length xs) / real_of_int k \<le> real_of_int ?tp" by (rule le_of_int_ceiling)
  have "real (length xs) = (real (length xs) / real_of_int k) * real_of_int k"
    using kpos by simp
  also have "\<dots> \<le> real_of_int ?tp * real_of_int k"
    using le kpos by (intro mult_right_mono) simp_all
  finally have "real (length xs) \<le> real_of_int ?tp * real_of_int k" .
  then have "int (length xs) \<le> ?tp * k"
    by (metis of_int_le_iff of_int_mult of_int_of_nat_eq)
  then have enough: "length xs \<le> ?m * nat k"
    using tp assms by (metis nat_int nat_mono nat_mult_distrib)
  have "map (\<lambda>p. take (nat k) (drop (nat ((p - 1) * k)) xs)) [1 .. ?tp]
      = map (\<lambda>i. take (nat k) (drop (i * nat k) xs)) [0 ..< ?m]"
    using assms by (simp add: up nat_mult_distrib o_def)
  then have "concat (map (\<lambda>p. take (nat k) (drop (nat ((p - 1) * k)) xs)) [1 .. ?tp])
      = take (?m * nat k) xs"
    by (simp add: concat_pages_nat)
  then show ?thesis using enough by simp
qed

lemma by_score_sorted:
  "sorted_wrt (\<lambda>a b. avg_rating' b < avg_rating' a
        \<or> (avg_rating' b = avg_rating' a \<and> rating_count b \<le> rating_count a))
     (list_sort (\<lambda>x. (avg_rating' x, rating_count x)) True (xs :: (real, int) movie list))"
proof -
  have "sorted_wrt (\<lambda>a b. (avg_rating' b, rating_count b) \<le> (avg_rating' a, rating_count a))
     (list_sort (\<lambda>x. (avg_rating' x, rating_count x)) True xs)"
    by (rule sorted_list_sort_desc)
  then show ?thesis
    by (rule sorted_wrt_mono_rel [rotated]) (auto simp: less_eq_prod_def)
qed

text \<open>
  C4.  For a page of at least 1 and a page size of at least 1, when every record of the
  repository converts, \<open>get_movies_list\<close> returns the slice from \<open>(page - 1) * page_size\<close>
  of length at most \<open>page_size\<close> of the sorted movies, their number, and the ceiling of
  that number divided by the page size.  The sorted movies are a rearrangement of all the
  movies, descending by average rating and, for equal averages, by rating count; and the
  pages 1 to \<open>total_pages\<close>, one after the other, are the sorted movies.
\<close>

theorem get_movies_list_pages:
  "1 \<le> page \<and> 1 \<le> page_size
     \<and> convert_all (to_movie to_float to_int) all_movies_data = Inr converted \<longrightarrow>
   get_movies_list to_float to_int (Inr all_movies_data) page page_size
     = Inr (take (nat page_size) (drop (nat ((page - 1) * page_size))
              (list_sort (\<lambda>x. (avg_rating' x, rating_count x)) True converted)),
            int (length converted),
            \<lceil>real (length converted) / real_of_int page_size\<rceil>)
   \<and> int (length (page_items
         (get_movies_list to_float to_int (Inr all_movies_data) page page_size))) \<le> page_size
   \<and> sorted_wrt (\<lambda>a b. avg_rating' b < avg_rating' a
          \<or> (avg_rating' b = avg_rating' a \<and> rating_count b \<le> rating_count a))
        (list_sort (\<lambda>x. (avg_rating' x, rating_count x)) True converted)
   \<and> mset (list_sort (\<lambda>x. (avg_rating' x, rating_count x)) True converted) = mset converted
   \<and> concat (map (\<lambda>p. page_items
          (get_movies_list to_float to_int (Inr all_movies_data) p page_size))
        [1 .. \<lceil>real (length converted) / real_of_int page_size\<rceil>])
       = list_sort (\<lambda>x. (avg_rating' x, rating_count x)) True converted"
proof (intro impI)
  assume a: "1 \<le> page \<and> 1 \<le> page_size
     \<and> convert_all (to_movie to_float to_int) all_movies_data = Inr converted"
  let ?all = "list_sort (\<lambda>x. (avg_rating' x, rating_count x)) True converted"
  let ?tp = "\<lceil>real (length converted) / real_of_int page_size\<rceil>"
  have page: "\<And>p. 1 \<le> p \<Longrightarrow>
      get_movies_list to_float to_int (Inr all_movies_data) p page_size
        = Inr (take (nat page_size) (drop (nat ((p - 1) * page_size)) ?all),
               int (length converted), ?tp)"
    using a by (simp add: get_movies_list_page)
  have items: "\<And>p. 1 \<le> p \<Longrightarrow>
      page_items (get_movies_list to_float to_int (Inr all_movies_data) p page_size)
        = take (nat page_size) (drop (nat ((p - 1) * page_size)) ?all)"
    by (simp add: page page_items_def)
  have one: "get_movies_list to_float to_int (Inr all_movies_data) page page_size
     = Inr (take (nat page_size) (drop (nat ((page - 1) * page_size)) ?all),
            int (length converted), ?tp)"
    using a page by blast
  have two: "int (length (page_items
         (get_movies_list to_float to_int (Inr all_movies_data) page page_size))) \<le> page_size"
  proof -
    have "length (take (nat page_size) (drop (nat ((page - 1) * page_size)) ?all))
        \<le> nat page_size" by simp
    then show ?thesis using a items [of page] by (simp only:) linarith
  qed
  have three: "sorted_wrt (\<lambda>a b. avg_rating' b < avg_rating' a
          \<or> (avg_rating' b = avg_rating' a \<and> rating_count b \<le> rating_count a)) ?all"
    by (rule by_score_sorted)
  have four: "mset ?all = mset converted" by (rule mset_list_sort)
  have m: "map (\<lambda>p. page_items
          (get_movies_list to_float to_int (Inr all_movies_data) p page_size)) [1 .. ?tp]
      = map (\<lambda>p. take (nat page_size) (drop (nat ((p - 1) * page_size)) ?all)) [1 .. ?tp]"
    by (rule map_cong) (simp_all add: items)
  have l: "length ?all = length converted" by (rule length_list_sort)
  have "1 \<le> page_size" using a by blast
  then have "concat (map (\<lambda>p. take (nat page_size) (drop (nat ((p - 1) * page_size)) ?all))
        [1 .. \<lceil>real (length ?all) / real_of_int page_size\<rceil>]) = ?all"
    by (rule all_pages)
  then have five: "concat (map (\<lambda>p. page_items
          (get_movies_list to_float to_int (Inr all_movies_data) p page_size)) [1 .. ?tp])
       = ?all"
    by (simp only: m l)
  show "get_movies_list to_float to_int (Inr all_movies_data) page page_size
     = Inr (take (nat page_size) (drop (nat ((page - 1) * page_size)) ?all),
            int (length converted), ?tp)
   \<and> int (length (page_items
         (get_movies_list to_float to_int (Inr all_movies_data) page page_size))) \<le> page_size
   \<and> sorted_wrt (\<lambda>a b. avg_rating' b < avg_rating' a
          \<or> (avg_rating' b = avg_rating' a \<and> rating_count b \<le> rating_count a)) ?all
   \<and> mset ?all = mset converted
   \<and> concat (map (\<lambda>p. page_items
          (get_movies_list to_float to_int (Inr all_movies_data) p page_size)) [1 .. ?tp])
       = ?all"
    using one two three four five by blast
qed

theorem get_movies_list_pages_witness:
  "get_movies_list float_of_decimal int_of_decimal (Inr sample_movies) 1 2
     = Inr ([heat, alien], 3, 2)
   \<and> get_movies_list float_of_decimal int_of_decimal (Inr sample_movies) 2 2
     = Inr ([the_matrix], 3, 2)"
proof -
  have c: "\<lceil>real (length [heat, the_matrix, alien]) / real_of_int 2\<rceil> = 2"
    by simp
  from get_movies_list_pages [of 1 2 float_of_decimal int_of_decimal sample_movies
      "[heat, the_matrix, alien]"] sample_converted
  have "get_movies_list float_of_decimal int_of_decimal (Inr sample_movies) 1 2
     = Inr (take (nat 2) (drop (nat ((1 - 1) * 2))
              (list_sort (\<lambda>x. (avg_rating' x, rating_count x)) True [heat, the_matrix, alien])),
            int (length [heat, the_matrix, alien]),
            \<lceil>real (length [heat, the_matrix, alien]) / real_of_int 2\<rceil>)"
    by simp
  then have one: "get_movies_list float_of_decimal int_of_decimal (Inr sample_movies) 1 2
     = Inr ([heat, alien], 3, 2)"
    by (simp only: sample_sorted c) simp
  from get_movies_list_pages [of 2 2 float_of_decimal int_of_decimal sample_movies
      "[heat, the_matrix, alien]"] sample_converted
  have "get_movies_list float_of_decimal int_of_decimal (Inr sample_movies) 2 2
     = Inr (take (nat 2) (drop (nat ((2 - 1) * 2))
              (list_sort (\<lambda>x. (avg_rating' x, rating_count x)) True [heat, the_matrix, alien])),
            int (length [heat, the_matrix, alien]),
            \<lceil>real (length [heat, the_matrix, alien]) / real_of_int 2\<rceil>)"
    by simp
  then have two: "get_movies_list float_of_decimal int_of_decimal (Inr sample_movies) 2 2
     = Inr ([the_matrix], 3, 2)"
    by (simp only: sample_sorted c) simp
  show ?thesis using one two by simp
qed

section \<open>Properties of the rating list\<close>

lemma convert_all_length: "convert_all f xs = Inr ys \<Longrightarrow> length ys = length xs"
proof (induction xs arbitrary: ys)
  case Nil
  then show ?case by simp
next
  case (Cons x xs)
  then show ?case by (auto split: sum.splits)
qed

lemma timestamp_found:
  "find_by_movie_id_body ''m1'' None (store_table timestamp_rows) =
     Inr [\<lparr>user_id = ''u1'', movie_id = ''m1'', rating = ''4'', timestamp = ''9''\<rparr>,
          \<lparr>user_id = ''u2'', movie_id = ''m1'', rating = ''5'', timestamp = ''10''\<rparr>,
          \<lparr>user_id = ''u3'', movie_id = ''m1'', rating = ''3'', timestamp = ''10''\<rparr>]"
  by (simp add: find_by_movie_id_body_def store_table_def timestamp_rows_def in_range_def
      decode_ascii make_rating_def get_decoded_def)

lemma timestamp_converted:
  "convert_all (to_rating float_of_decimal)
     [\<lparr>user_id = ''u1'', movie_id = ''m1'', rating = ''4'', timestamp = ''9''\<rparr>,
      \<lparr>user_id = ''u2'', movie_id = ''m1'', rating = ''5'', timestamp = ''10''\<rparr>,
      \<lparr>user_id = ''u3'', movie_id = ''m1'', rating = ''3'', timestamp = ''10''\<rparr>]
   = Inr [\<lparr>user_id = ''u1'', movie_id = ''m1'', rating = 4, timestamp = ''9''\<rparr>,
          \<lparr>user_id = ''u2'', movie_id = ''m1'', rating = 5, timestamp = ''10''\<rparr>,
          \<lparr>user_id = ''u3'', movie_id = ''m1'', rating = 3, timestamp = ''10''\<rparr>]"
  by (simp add: to_rating_def float_of_decimal_def is_digit_def nat_of_digits_def)

lemma timestamp_sorted:
  "list_sort timestamp True
     [\<lparr>user_id = ''u1'', movie_id = ''m1'', rating = 4 :: real, timestamp = ''9''\<rparr>,
      \<lparr>user_id = ''u2'', movie_id = ''m1'', rating = 5, timestamp = ''10''\<rparr>,
      \<lparr>user_id = ''u3'', movie_id = ''m1'', rating = 3, timestamp = ''10''\<rparr>]
   = [\<lparr>user_id = ''u1'', movie_id = ''m1'', rating = 4, timestamp = ''9''\<rparr>,
      \<lparr>user_id = ''u2'', movie_id = ''m1'', rating = 5, timestamp = ''10''\<rparr>,
      \<lparr>user_id = ''u3'', movie_id = ''m1'', rating = 3, timestamp = ''10''\<rparr>]"
  by (simp add: list_sort_def sort_by_def)

lemma get_movie_ratings_page:
  assumes "1 \<le> page" and "1 \<le> page_size"
    and "find_by_movie_id get_ratings_table mid None self = (Inr data, self')"
    and "convert_all (to_rating to_float) data = Inr converted"
  shows "get_movie_ratings get_ratings_table to_float mid page page_size self
     = (Inr (take (nat page_size) (drop (nat ((page - 1) * page_size))
               (list_sort timestamp True converted)),
             int (length data),
             (if data = [] then 0 else \<lceil>real (length data) / real_of_int page_size\<rceil>)),
        self')"
proof -
  let ?all = "list_sort timestamp True converted"
  have len: "length ?all = length data"
    using convert_all_length [OF assms(4)] by (simp add: length_list_sort)
  have slice: "py_slice ?all ((page - 1) * page_size) ((page - 1) * page_size + page_size)
      = take (nat page_size) (drop (nat ((page - 1) * page_size)) ?all)"
    using assms(1,2) by (intro py_slice_page) simp_all
  show ?thesis
  proof (cases "data = []")
    case True
    then have "converted = []" using convert_all_length [OF assms(4)] by simp
    then show ?thesis
      using assms(3) True
      by (simp add: get_movie_ratings_def Let_def list_sort_def sort_by_def py_slice_def)
  next
    case False
    then have pos: "?all \<noteq> []" using len by (metis length_0_conv)
    have "floordiv (int (length ?all) + page_size - 1) page_size
        = Inr \<lceil>real_of_int (int (length data)) / real_of_int page_size\<rceil>"
      using assms(2) ceiling_pages [of page_size "int (length data)"]
      by (simp add: floordiv_def len)
    then show ?thesis
      using assms(3,4) slice pos False by (simp add: get_movie_ratings_def Let_def len)
  qed
qed

text \<open>
  C6.  For a page and a page size of at least 1, when the unlimited \<open>find_by_movie_id\<close>
  returns and every rating converts, \<open>get_movie_ratings\<close> returns the slice from
  \<open>(page - 1) * page_size\<close> of length \<open>page_size\<close> of the sorted ratings, the number of
  ratings found, and as number of pages 0 when there is none and otherwise the ceiling of
  their number divided by the page size.  The sorted ratings are a rearrangement of the
  ratings found, descending by timestamp; timestamps are compared as strings, in the
  lexicographic order of their bytes.  The ratings found are all those of the scan: one
  for each scanned key whose second part is the movie.
\<close>

theorem get_movie_ratings_pages:
  "(1 \<le> page \<and> 1 \<le> page_size
      \<and> find_by_movie_id get_ratings_table mid None self = (Inr data, self')
      \<and> convert_all (to_rating to_float) data = Inr converted \<longrightarrow>
    get_movie_ratings get_ratings_table to_float mid page page_size self
      = (Inr (take (nat page_size) (drop (nat ((page - 1) * page_size))
                (list_sort timestamp True converted)),
              int (length data),
              (if data = [] then 0 else \<lceil>real (length data) / real_of_int page_size\<rceil>)),
         self')
    \<and> map (\<lambda>r. user_id r @ ''_'' @ movie_id r) data
        = filter (\<lambda>key. case split CHR ''_'' key of [u, m] \<Rightarrow> m = mid | _ \<Rightarrow> False)
            (scanned_keys (table self' None None)))
   \<and> sorted_wrt (\<lambda>a b. timestamp b \<le> timestamp a) (list_sort timestamp True converted)
   \<and> mset (list_sort timestamp True converted) = mset converted
   \<and> (timestamp a < timestamp b \<longleftrightarrow>
        (timestamp a, timestamp b) \<in> lexord {(c, d). (of_char c :: nat) < of_char d})"
proof (intro conjI impI)
  assume a: "1 \<le> page \<and> 1 \<le> page_size
      \<and> find_by_movie_id get_ratings_table mid None self = (Inr data, self')
      \<and> convert_all (to_rating to_float) data = Inr converted"
  then show "get_movie_ratings get_ratings_table to_float mid page page_size self
      = (Inr (take (nat page_size) (drop (nat ((page - 1) * page_size))
                (list_sort timestamp True converted)),
              int (length data),
              (if data = [] then 0 else \<lceil>real (length data) / real_of_int page_size\<rceil>)),
         self')"
    by (simp add: get_movie_ratings_page)
  from a obtain c c' where "find_by_movie_id_body mid None (table self') = Inr data"
    using find_by_movie_id_Inr by blast
  then have "scan_by_movie_id mid None (table self' None None) [] = Inr data"
    by (simp add: find_by_movie_id_body_def)
  from scan_movie_keys [OF this]
  show "map (\<lambda>r. user_id r @ ''_'' @ movie_id r) data
        = filter (\<lambda>key. case split CHR ''_'' key of [u, m] \<Rightarrow> m = mid | _ \<Rightarrow> False)
            (scanned_keys (table self' None None))"
    by simp
next
  show "sorted_wrt (\<lambda>a b. timestamp b \<le> timestamp a) (list_sort timestamp True converted)"
    by (rule sorted_list_sort_desc)
next
  show "mset (list_sort timestamp True converted) = mset converted"
    by (rule mset_list_sort)
next
  have "{(c :: char, d). c < d} = {(c, d). (of_char c :: nat) < of_char d}"
    by (simp add: less_char_def)
  then show "timestamp a < timestamp b \<longleftrightarrow>
        (timestamp a, timestamp b) \<in> lexord {(c, d). (of_char c :: nat) < of_char d}"
    by (simp add: list_less_def)
qed

theorem get_movie_ratings_pages_witness:
  "get_movie_ratings (serve (store_table timestamp_rows)) float_of_decimal ''m1'' 1 2
      new_repository
     = (Inr ([\<lparr>user_id = ''u1'', movie_id = ''m1'', rating = 4, timestamp = ''9''\<rparr>,
              \<lparr>user_id = ''u2'', movie_id = ''m1'', rating = 5, timestamp = ''10''\<rparr>], 3, 2),
        new_repository\<lparr>table := store_table timestamp_rows\<rparr>)"
proof -
  let ?d1 = "\<lparr>user_id = ''u1'', movie_id = ''m1'', rating = ''4'', timestamp = ''9''\<rparr>"
  let ?d2 = "\<lparr>user_id = ''u2'', movie_id = ''m1'', rating = ''5'', timestamp = ''10''\<rparr>"
  let ?d3 = "\<lparr>user_id = ''u3'', movie_id = ''m1'', rating = ''3'', timestamp = ''10''\<rparr>"
  let ?r1 = "\<lparr>user_id = ''u1'', movie_id = ''m1'', rating = 4 :: real, timestamp = ''9''\<rparr>"
  let ?r2 = "\<lparr>user_id = ''u2'', movie_id = ''m1'', rating = 5 :: real, timestamp = ''10''\<rparr>"
  let ?r3 = "\<lparr>user_id = ''u3'', movie_id = ''m1'', rating = 3 :: real, timestamp = ''10''\<rparr>"
  let ?self' = "new_repository\<lparr>table := store_table timestamp_rows\<rparr>"
  have found: "find_by_movie_id (serve (store_table timestamp_rows)) ''m1'' None new_repository
      = (Inr [?d1, ?d2, ?d3], ?self')"
    using timestamp_found by (rule find_by_movie_id_serve)
  have c: "\<lceil>real (length [?d1, ?d2, ?d3]) / real_of_int 2\<rceil> = 2" by simp
  have prem: "1 \<le> (1::int) \<and> 1 \<le> (2::int)
      \<and> find_by_movie_id (serve (store_table timestamp_rows)) ''m1'' None new_repository
          = (Inr [?d1, ?d2, ?d3], ?self')
      \<and> convert_all (to_rating float_of_decimal) [?d1, ?d2, ?d3] = Inr [?r1, ?r2, ?r3]"
    using found timestamp_converted by simp
  note inst = get_movie_ratings_pages [of 1 2 "serve (store_table timestamp_rows)" "''m1''"
      new_repository "[?d1, ?d2, ?d3]" "?self'" float_of_decimal "[?r1, ?r2, ?r3]"]
  from inst prem
  have "get_movie_ratings (serve (store_table timestamp_rows)) float_of_decimal ''m1'' 1 2
      new_repository
     = (Inr (take (nat 2) (drop (nat ((1 - 1) * 2)) (list_sort timestamp True [?r1, ?r2, ?r3])),
             int (length [?d1, ?d2, ?d3]),
             (if [?d1, ?d2, ?d3] = [] then 0
              else \<lceil>real (length [?d1, ?d2, ?d3]) / real_of_int 2\<rceil>)),
        ?self')"
    by blast
  then show ?thesis
    by (simp only: timestamp_sorted c) simp
qed

section \<open>Properties of the search\<close>

lemma lstrip_of_Nil: "lstrip_of chars [] = []"
proof -
  have "\<And>w. w \<noteq> [] \<Longrightarrow> \<not> starts_with w []"
    by (case_tac w) simp_all
  then have "find (\<lambda>w. w \<noteq> [] \<and> starts_with w []) chars = None"
    by (auto simp: find_None_iff)
  then show ?thesis by (simp add: lstrip_of.simps [of chars "[]"])
qed

lemma lstrip_found:
  "find (\<lambda>p. p \<noteq> [] \<and> starts_with p (w @ s)) chars = Some w \<Longrightarrow>
     lstrip_of chars (w @ s) = lstrip_of chars s"
  by (simp add: lstrip_of.simps [of chars "w @ s"])

lemma whitespace_first_all:
  "list_all (\<lambda>w. find (\<lambda>p. p \<noteq> [] \<and> starts_with p (w @ s)) whitespace = Some w) whitespace"
  by (simp add: whitespace_def)

lemma whitespace_first:
  "w \<in> set whitespace \<Longrightarrow>
     find (\<lambda>p. p \<noteq> [] \<and> starts_with p (w @ s)) whitespace = Some w"
  using whitespace_first_all [of s] unfolding list_all_iff by (rule bspec)

lemma lstrip_concat:
  "set ws \<subseteq> set whitespace \<Longrightarrow> lstrip_of whitespace (concat ws @ s) = lstrip_of whitespace s"
proof (induction ws)
  case Nil
  then show ?case by simp
next
  case (Cons w ws)
  then have "w \<in> set whitespace" and "set ws \<subseteq> set whitespace" by simp_all
  from lstrip_found [OF whitespace_first [OF this(1)]] Cons.IH [OF this(2)]
  show ?case by simp
qed

lemma strip_whitespace: "set ws \<subseteq> set whitespace \<Longrightarrow> strip (concat ws) = []"
  using lstrip_concat [of ws "[]"] by (simp add: strip_def lstrip_of_Nil)

lemma lstrip_of_empty:
  "lstrip_of chars s = [] \<Longrightarrow> \<exists>ws. set ws \<subseteq> set chars \<and> s = concat ws"
proof (induction chars s rule: lstrip_of.induct)
  case (1 chars s)
  show ?case
  proof (cases "find (\<lambda>w. w \<noteq> [] \<and> starts_with w s) chars")
    case None
    with "1.prems" have "s = []" by (simp add: lstrip_of.simps [of chars s])
    then have "set [] \<subseteq> set chars \<and> s = concat []" by simp
    then show ?thesis by (rule exI)
  next
    case (Some w)
    with "1.prems" have "lstrip_of chars (drop (length w) s) = []"
      by (simp add: lstrip_of.simps [of chars s])
    from "1.IH" [OF Some this] obtain ws
      where ws: "set ws \<subseteq> set chars" "drop (length w) s = concat ws" by blast
    from Some have w: "w \<in> set chars" and "starts_with w s"
      by (auto simp: find_Some_iff)
    then obtain b where "s = w @ b" by (auto simp: starts_with_iff)
    with ws(2) have "s = concat (w # ws)" by simp
    moreover from w ws(1) have "set (w # ws) \<subseteq> set chars" by simp
    ultimately show ?thesis by blast
  qed
qed

lemma lstrip_of_done:
  "find (\<lambda>w. w \<noteq> [] \<and> starts_with w (lstrip_of chars s)) chars = None"
proof (induction chars s rule: lstrip_of.induct)
  case (1 chars s)
  show ?case
  proof (cases "find (\<lambda>w. w \<noteq> [] \<and> starts_with w s) chars")
    case None
    then have "lstrip_of chars s = s" by (simp add: lstrip_of.simps [of chars s])
    with None show ?thesis by simp
  next
    case (Some w)
    then have "lstrip_of chars s = lstrip_of chars (drop (length w) s)"
      by (simp add: lstrip_of.simps [of chars s])
    with "1.IH" [OF Some] show ?thesis by simp
  qed
qed

lemma whitespace_nonempty: "w \<in> set whitespace \<Longrightarrow> w \<noteq> []"
proof -
  have "list_all (\<lambda>w. w \<noteq> []) whitespace" by (simp add: whitespace_def)
  then show "w \<in> set whitespace \<Longrightarrow> w \<noteq> []" unfolding list_all_iff by (rule bspec)
qed

lemma concat_whitespace_first:
  "set ws \<subseteq> set whitespace \<Longrightarrow> concat ws \<noteq> [] \<Longrightarrow>
     \<exists>w. find (\<lambda>p. p \<noteq> [] \<and> starts_with p (concat ws)) whitespace = Some w"
proof (cases ws)
  case Nil
  assume "concat ws \<noteq> []"
  with Nil show ?thesis by simp
next
  case (Cons w ws')
  assume "set ws \<subseteq> set whitespace"
  with Cons have "w \<in> set whitespace" by simp
  from whitespace_first [OF this, of "concat ws'"] Cons show ?thesis by simp
qed

lemma strip_empty_lstrip:
  assumes "strip s = []"
  shows "lstrip_of whitespace s = []"
proof (rule ccontr)
  let ?t = "lstrip_of whitespace s"
  assume ne: "?t \<noteq> []"
  from assms have "lstrip_of (map rev whitespace) (rev ?t) = []"
    by (simp add: strip_def)
  from lstrip_of_empty [OF this] obtain rs
    where rs: "set rs \<subseteq> set (map rev whitespace)" "rev ?t = concat rs" by blast
  let ?ws = "map rev (rev rs)"
  from rs(2) have "rev (rev ?t) = rev (concat rs)" by (rule arg_cong)
  then have t: "?t = concat ?ws" by (simp add: rev_concat)
  have "set ?ws \<subseteq> set whitespace"
  proof
    fix w assume "w \<in> set ?ws"
    then obtain r where "r \<in> set rs" and w: "w = rev r" by auto
    with rs(1) obtain v where "v \<in> set whitespace" and "r = rev v" by auto
    with w show "w \<in> set whitespace" by simp
  qed
  from concat_whitespace_first [OF this] ne t
  obtain w where "find (\<lambda>p. p \<noteq> [] \<and> starts_with p ?t) whitespace = Some w"
    by auto
  with lstrip_of_done [of whitespace s] show False by simp
qed

lemma strip_empty_iff:
  "strip s = [] \<longleftrightarrow> (\<exists>ws. set ws \<subseteq> set whitespace \<and> s = concat ws)"
proof
  assume "strip s = []"
  then have "lstrip_of whitespace s = []" by (rule strip_empty_lstrip)
  then show "\<exists>ws. set ws \<subseteq> set whitespace \<and> s = concat ws" by (rule lstrip_of_empty)
next
  assume "\<exists>ws. set ws \<subseteq> set whitespace \<and> s = concat ws"
  then show "strip s = []" using strip_whitespace by blast
qed

lemma strip_mAtRiX: "strip ''  mAtRiX '' = ''mAtRiX''"
  by (simp add: strip_def lstrip_of.simps whitespace_def)

lemma strip_42: "strip '' 42'' = ''42''"
  by (simp add: strip_def lstrip_of.simps whitespace_def)

lemma strip_2: "strip ''2'' = ''2''"
  by (simp add: strip_def lstrip_of.simps whitespace_def)

lemma sort_key_le:
  "sort_key to_lower q a \<le> sort_key to_lower q b \<longleftrightarrow>
     (title_match to_lower q a \<and> \<not> title_match to_lower q b)
     \<or> (title_match to_lower q a = title_match to_lower q b
         \<and> (avg_rating' b < avg_rating' a
             \<or> (avg_rating' b = avg_rating' a \<and> rating_count b \<le> rating_count a)))"
  by (auto simp: sort_key_def less_eq_prod_def)

lemma ranking_sorted:
  "sorted_wrt (\<lambda>a b. (title_match to_lower q a \<and> \<not> title_match to_lower q b)
       \<or> (title_match to_lower q a = title_match to_lower q b
           \<and> (avg_rating' b < avg_rating' a
               \<or> (avg_rating' b = avg_rating' a \<and> rating_count b \<le> rating_count a))))
     (list_sort (sort_key to_lower q) False xs)"
proof -
  have "sorted_wrt (\<lambda>a b. sort_key to_lower q a \<le> sort_key to_lower q b)
      (list_sort (sort_key to_lower q) False xs)"
    by (rule sorted_list_sort_asc)
  then show ?thesis by (simp add: sort_key_le)
qed

lemma search_empty: "strip query = [] \<Longrightarrow>
    search_movies to_float to_int isdigit to_lower find_by_id search_by_text query limit = Inr []"
  by (simp add: search_movies_def)

lemma search_digits:
  "strip query \<noteq> [] \<Longrightarrow> isdigit (strip query) \<Longrightarrow>
    search_movies to_float to_int isdigit to_lower find_by_id search_by_text query limit
      = (case find_by_id (strip query) of
           Inl e \<Rightarrow> Inl e
         | Inr None \<Rightarrow> Inr []
         | Inr (Some movie_data) \<Rightarrow>
             (case to_movie to_float to_int movie_data of
                Inl e \<Rightarrow> Inl e
              | Inr m \<Rightarrow> Inr [m]))"
  by (simp add: search_movies_def)

lemma search_text:
  "strip query \<noteq> [] \<Longrightarrow> \<not> isdigit (strip query) \<Longrightarrow>
   search_by_text (strip query) limit = Inr matched_data \<Longrightarrow>
   convert_all (to_movie to_float to_int) matched_data = Inr matched \<Longrightarrow>
    search_movies to_float to_int isdigit to_lower find_by_id search_by_text query limit
      = Inr (list_sort (sort_key to_lower (strip query)) False matched)"
  by (simp add: search_movies_def)

lemma to_movie_id: "to_movie to_float to_int md = Inr m \<Longrightarrow> id' m = id' md"
  by (auto simp: to_movie_def split: sum.splits)

lemma not_digit_mAtRiX: "\<not> ascii_isdigit ''mAtRiX''"
  by (simp add: ascii_isdigit_def is_digit_def)

lemma search_text_mAtRiX:
  "sample_search_by_text ''mAtRiX'' 50 = Inr (take 2 sample_movies)"
  by (simp add: sample_search_by_text_def sample_movies_def lower_def lower_char_def)

lemma converted_Matrix:
  "convert_all (to_movie float_of_decimal int_of_decimal) (take 2 sample_movies)
     = Inr [heat, the_matrix]"
  by (simp add: sample_movies_def to_movie_def float_of_decimal_def int_of_decimal_def
      ascii_isdigit_def is_digit_def nat_of_digits_def the_matrix_def heat_def)

lemma match_the_matrix: "title_match lower ''mAtRiX'' the_matrix"
  by (simp add: title_match_def the_matrix_def lower_def lower_char_def)

lemma no_match_heat: "\<not> title_match lower ''mAtRiX'' heat"
  by (simp add: title_match_def heat_def lower_def lower_char_def)

lemma sorted_mAtRiX:
  "list_sort (sort_key lower ''mAtRiX'') False [heat, the_matrix] = [the_matrix, heat]"
  by (simp add: list_sort_def sort_by_def sort_key_def match_the_matrix no_match_heat)

lemma find_42: "sample_find_by_id ''42'' = Inr None"
  by (simp add: sample_find_by_id_def sample_movies_def)

lemma find_2: "sample_find_by_id ''2'' = Inr (Some (sample_movies ! 1))"
  by (simp add: sample_find_by_id_def sample_movies_def)

lemma to_movie_2: "to_movie float_of_decimal int_of_decimal (sample_movies ! 1) = Inr the_matrix"
  by (simp add: sample_movies_def to_movie_def float_of_decimal_def int_of_decimal_def
      ascii_isdigit_def is_digit_def nat_of_digits_def the_matrix_def)

lemma lower_MATRIX: "lower ''MATRIX'' = lower ''matrix''"
  by (simp add: lower_def lower_char_def)

lemma ideographic_space: "set [[CHR 0xE3, CHR 0x80, CHR 0x80], '' '', [CHR 0xC2, CHR 0xA0]]
    \<subseteq> set whitespace"
  by (simp add: whitespace_def)

text \<open>
  C5.  \<open>search_movies\<close> on a query that \<open>strip\<close> leaves empty returns the empty list
  whatever the repository does; \<open>strip\<close> leaves empty exactly the queries made of
  whitespace characters only, those outside ASCII included.  On a query that \<open>strip\<close>
  leaves non-empty and of which \<open>isdigit\<close> holds, the result is decided by \<open>find_by_id\<close> on
  the stripped query alone, whatever \<open>search_by_text\<close> is: the empty list when the movie
  is absent, the one movie, with the identifier of the record found, when it is present;
  never more than one.  On any other query the result is the movies found by
  \<open>search_by_text\<close> on the stripped query, rearranged so that movies whose lower-cased title
  contains the lower-cased query come before the others and, within both groups, movies
  descend by average rating and then by rating count.  The test on the title ignores case:
  it depends on the query and on the title through their lower-cased forms only.
\<close>

theorem search_movies_ranking:
  "(strip query = [] \<longleftrightarrow> (\<exists>ws. set ws \<subseteq> set whitespace \<and> query = concat ws))
   \<and> (strip query = [] \<longrightarrow>
        search_movies to_float to_int isdigit to_lower find_by_id search_by_text query limit
          = Inr [])
   \<and> (strip query \<noteq> [] \<and> isdigit (strip query) \<longrightarrow>
        search_movies to_float to_int isdigit to_lower find_by_id search_by_text query limit
          = search_movies to_float to_int isdigit to_lower find_by_id search_by_text' query limit'
        \<and> length (case search_movies to_float to_int isdigit to_lower find_by_id
                         search_by_text query limit of
                    Inl e \<Rightarrow> [] | Inr ms \<Rightarrow> ms) \<le> 1
        \<and> (find_by_id (strip query) = Inr None \<longrightarrow>
             search_movies to_float to_int isdigit to_lower find_by_id search_by_text query limit
               = Inr [])
        \<and> (find_by_id (strip query) = Inr (Some movie_data)
             \<and> to_movie to_float to_int movie_data = Inr m \<longrightarrow>
             search_movies to_float to_int isdigit to_lower find_by_id search_by_text query limit
               = Inr [m]
             \<and> id' m = id' movie_data))
   \<and> (strip query \<noteq> [] \<and> \<not> isdigit (strip query)
        \<and> search_by_text (strip query) limit = Inr matched_data
        \<and> convert_all (to_movie to_float to_int) matched_data = Inr matched \<longrightarrow>
        search_movies to_float to_int isdigit to_lower find_by_id search_by_text query limit
          = Inr (list_sort (sort_key to_lower (strip query)) False matched))
   \<and> mset (list_sort (sort_key to_lower (strip query)) False matched) = mset matched
   \<and> sorted_wrt (\<lambda>a b. (title_match to_lower (strip query) a
                        \<and> \<not> title_match to_lower (strip query) b)
          \<or> (title_match to_lower (strip query) a = title_match to_lower (strip query) b
              \<and> (avg_rating' b < avg_rating' a
                  \<or> (avg_rating' b = avg_rating' a \<and> rating_count b \<le> rating_count a))))
        (list_sort (sort_key to_lower (strip query)) False matched)
   \<and> (title_match to_lower q x \<longleftrightarrow> (\<exists>a b. to_lower (title x) = a @ to_lower q @ b))
   \<and> (to_lower q = to_lower q' \<and> to_lower (title x) = to_lower (title x') \<longrightarrow>
        title_match to_lower q x = title_match to_lower q' x')"
proof (intro conjI impI)
  show "strip query = [] \<longleftrightarrow> (\<exists>ws. set ws \<subseteq> set whitespace \<and> query = concat ws)"
    by (rule strip_empty_iff)
next
  assume "strip query = []"
  then show "search_movies to_float to_int isdigit to_lower find_by_id search_by_text query limit
      = Inr []"
    by (rule search_empty)
next
  assume a: "strip query \<noteq> [] \<and> isdigit (strip query)"
  then show "search_movies to_float to_int isdigit to_lower find_by_id search_by_text query limit
      = search_movies to_float to_int isdigit to_lower find_by_id search_by_text' query limit'"
    by (simp add: search_digits)
  from a show "length (case search_movies to_float to_int isdigit to_lower find_by_id
                         search_by_text query limit of
                    Inl e \<Rightarrow> [] | Inr ms \<Rightarrow> ms) \<le> 1"
    by (simp add: search_digits split: sum.splits option.splits)
next
  assume "strip query \<noteq> [] \<and> isdigit (strip query)"
    and "find_by_id (strip query) = Inr None"
  then show "search_movies to_float to_int isdigit to_lower find_by_id search_by_text query limit
      = Inr []"
    by (simp add: search_digits)
next
  assume "strip query \<noteq> [] \<and> isdigit (strip query)"
    and "find_by_id (strip query) = Inr (Some movie_data)
             \<and> to_movie to_float to_int movie_data = Inr m"
  then show "search_movies to_float to_int isdigit to_lower find_by_id search_by_text query limit
      = Inr [m]"
    by (simp add: search_digits)
next
  assume "find_by_id (strip query) = Inr (Some movie_data)
             \<and> to_movie to_float to_int movie_data = Inr m"
  then show "id' m = id' movie_data"
    by (auto dest: to_movie_id)
next
  assume "strip query \<noteq> [] \<and> \<not> isdigit (strip query)
        \<and> search_by_text (strip query) limit = Inr matched_data
        \<and> convert_all (to_movie to_float to_int) matched_data = Inr matched"
  then show "search_movies to_float to_int isdigit to_lower find_by_id search_by_text query limit
      = Inr (list_sort (sort_key to_lower (strip query)) False matched)"
    by (simp add: search_text)
next
  show "mset (list_sort (sort_key to_lower (strip query)) False matched) = mset matched"
    by (rule mset_list_sort)
next
  show "sorted_wrt (\<lambda>a b. (title_match to_lower (strip query) a
                        \<and> \<not> title_match to_lower (strip query) b)
          \<or> (title_match to_lower (strip query) a = title_match to_lower (strip query) b
              \<and> (avg_rating' b < avg_rating' a
                  \<or> (avg_rating' b = avg_rating' a \<and> rating_count b \<le> rating_count a))))
        (list_sort (sort_key to_lower (strip query)) False matched)"
    by (rule ranking_sorted)
next
  show "title_match to_lower q x \<longleftrightarrow> (\<exists>a b. to_lower (title x) = a @ to_lower q @ b)"
    by (simp add: title_match_def contains_iff)
next
  assume "to_lower q = to_lower q' \<and> to_lower (title x) = to_lower (title x')"
  then show "title_match to_lower q x = title_match to_lower q' x'"
    by (simp add: title_match_def)
qed

theorem search_movies_ranking_witness:
  "search_movies float_of_decimal int_of_decimal ascii_isdigit lower sample_find_by_id
      sample_search_by_text ''  mAtRiX '' 50 = Inr [the_matrix, heat]
   \<and> search_movies float_of_decimal int_of_decimal ascii_isdigit lower sample_find_by_id
      sample_search_by_text '' 42'' 50 = Inr []
   \<and> search_movies float_of_decimal int_of_decimal ascii_isdigit lower sample_find_by_id
      sample_search_by_text ''2'' 50 = Inr [the_matrix]
   \<and> search_movies float_of_decimal int_of_decimal ascii_isdigit lower sample_find_by_id
      sample_search_by_text
      (concat [[CHR 0xE3, CHR 0x80, CHR 0x80], '' '', [CHR 0xC2, CHR 0xA0]]) 50 = Inr []
   \<and> strip (concat [[CHR 0xE3, CHR 0x80, CHR 0x80], '' '', [CHR 0xC2, CHR 0xA0]]) = []
   \<and> title_match lower ''MATRIX'' the_matrix = title_match lower ''matrix'' the_matrix
   \<and> list_sort (sort_key lower (strip ''  mAtRiX '')) False [heat, the_matrix]
       = [the_matrix, heat]"
proof -
  let ?search = "search_movies float_of_decimal int_of_decimal ascii_isdigit lower
      sample_find_by_id sample_search_by_text"
  let ?blank = "concat [[CHR 0xE3, CHR 0x80, CHR 0x80], '' '', [CHR 0xC2, CHR 0xA0]]"
  note ranked = search_movies_ranking [where query = "''  mAtRiX ''"
      and to_float = float_of_decimal and to_int = int_of_decimal and isdigit = ascii_isdigit
      and to_lower = lower and find_by_id = sample_find_by_id
      and search_by_text = sample_search_by_text and limit = 50
      and matched_data = "take 2 sample_movies" and matched = "[heat, the_matrix]"
      and q = "''MATRIX''" and q' = "''matrix''" and x = the_matrix and x' = the_matrix]
  note absent = search_movies_ranking [where query = "'' 42''"
      and to_float = float_of_decimal and to_int = int_of_decimal and isdigit = ascii_isdigit
      and to_lower = lower and find_by_id = sample_find_by_id
      and search_by_text = sample_search_by_text and limit = 50]
  note present = search_movies_ranking [where query = "''2''"
      and to_float = float_of_decimal and to_int = int_of_decimal and isdigit = ascii_isdigit
      and to_lower = lower and find_by_id = sample_find_by_id
      and search_by_text = sample_search_by_text and limit = 50
      and movie_data = "sample_movies ! 1" and m = the_matrix]
  note blank = search_movies_ranking [where query = ?blank
      and to_float = float_of_decimal and to_int = int_of_decimal and isdigit = ascii_isdigit
      and to_lower = lower and find_by_id = sample_find_by_id
      and search_by_text = sample_search_by_text and limit = 50]
  have text_prem: "strip ''  mAtRiX '' \<noteq> [] \<and> \<not> ascii_isdigit (strip ''  mAtRiX '')
        \<and> sample_search_by_text (strip ''  mAtRiX '') 50 = Inr (take 2 sample_movies)
        \<and> convert_all (to_movie float_of_decimal int_of_decimal) (take 2 sample_movies)
            = Inr [heat, the_matrix]"
    by (simp add: strip_mAtRiX not_digit_mAtRiX search_text_mAtRiX converted_Matrix)
  from ranked text_prem
  have "?search ''  mAtRiX '' 50
      = Inr (list_sort (sort_key lower (strip ''  mAtRiX '')) False [heat, the_matrix])"
    by blast
  moreover have sorted: "list_sort (sort_key lower (strip ''  mAtRiX '')) False [heat, the_matrix]
      = [the_matrix, heat]"
    by (simp only: strip_mAtRiX sorted_mAtRiX)
  ultimately have one: "?search ''  mAtRiX '' 50 = Inr [the_matrix, heat]"
    by (simp only:)
  have d42: "strip '' 42'' \<noteq> [] \<and> ascii_isdigit (strip '' 42'')"
    and d2: "strip ''2'' \<noteq> [] \<and> ascii_isdigit (strip ''2'')"
    by (simp_all add: strip_42 strip_2 ascii_isdigit_def is_digit_def)
  have f42: "sample_find_by_id (strip '' 42'') = Inr None"
    by (simp add: strip_42 find_42)
  have f2: "sample_find_by_id (strip ''2'') = Inr (Some (sample_movies ! 1))
      \<and> to_movie float_of_decimal int_of_decimal (sample_movies ! 1) = Inr the_matrix"
    using find_2 to_movie_2 unfolding strip_2 by blast
  from absent d42 f42 have two: "?search '' 42'' 50 = Inr []"
    by blast
  from present d2 f2 have three: "?search ''2'' 50 = Inr [the_matrix]"
    by blast
  have "\<exists>ws. set ws \<subseteq> set whitespace \<and> ?blank = concat ws"
    using ideographic_space by blast
  with blank have empty: "strip ?blank = []"
    by blast
  with blank have four: "?search ?blank 50 = Inr []"
    by blast
  from ranked lower_MATRIX
  have five: "title_match lower ''MATRIX'' the_matrix = title_match lower ''matrix'' the_matrix"
    by blast
  from one two three four empty five sorted show ?thesis by (intro conjI)
qed

end
